theory Spec2Isabelle
  imports Complex_Main "HOL-Library.Sublist" "HOL-Library.Char_ord" "HOL-Library.List_Lexorder"
begin

section \<open>JavaScript values and the Momoa document tree\<close>

text \<open>
  The parser works on JSON documents. A Momoa node (\<open>ObjectNode\<close>, \<open>ArrayNode\<close>,
  \<open>StringNode\<close>, ...) without its source location and the JavaScript value that
  \<open>evaluate\<close> makes of it have the same shape, so one datatype serves both: an object is
  the list of its members in the order they were written (a node may repeat a name) or
  created (a value holds each name once). \<open>JUndefined\<close> is JavaScript's \<open>undefined\<close>;
  no node and no evaluated document contains it, a missing property reads as it.
  Strings are lists of characters, one \<open>char\<close> per code unit; numbers are rationals, of
  which only the test against zero is used.
\<close>

datatype json =
    JUndefined
  | JNull
  | JBool bool
  | JNum rat
  | JStr string
  | JArr "json list"
  | JObj "(string \<times> json) list"

type_synonym node = json

text \<open>JavaScript truthiness, as \<open>if (v)\<close>, \<open>!v\<close>, \<open>a || b\<close> and \<open>a && b\<close> test it.\<close>

fun truthy :: "json \<Rightarrow> bool" where
  "truthy JUndefined = False"
| "truthy JNull = False"
| "truthy (JBool b) = b"
| "truthy (JNum n) = (n \<noteq> 0)"
| "truthy (JStr s) = (s \<noteq> [])"
| "truthy (JArr xs) = True"
| "truthy (JObj ms) = True"

text \<open>\<open>a || b\<close> and \<open>a ?? b\<close>.\<close>

definition or_else :: "json \<Rightarrow> json \<Rightarrow> json" where
  "or_else a b = (if truthy a then a else b)"

fun nullish :: "json \<Rightarrow> bool" where
  "nullish JUndefined = True"
| "nullish JNull = True"
| "nullish v = False"

definition coalesce :: "json \<Rightarrow> json \<Rightarrow> json" where
  "coalesce a b = (if nullish a then b else a)"

subsection \<open>Strings\<close>

text \<open>\<open>Array.prototype.join\<close> on an array of strings.\<close>

fun join :: "string \<Rightarrow> string list \<Rightarrow> string" where
  "join sep [] = []"
| "join sep [x] = x"
| "join sep (x # y # ys) = x @ sep @ join sep (y # ys)"

text \<open>\<open>String.prototype.split\<close> at a one-character separator.\<close>

fun split_on :: "char \<Rightarrow> string \<Rightarrow> string list" where
  "split_on c [] = [[]]"
| "split_on c (x # xs) =
     (if x = c then [] # split_on c xs
      else (case split_on c xs of [] \<Rightarrow> [[x]] | w # ws \<Rightarrow> (x # w) # ws))"

text \<open>\<open>String(i)\<close> of an array index, and the value of a string of decimal digits.\<close>

definition digit_char :: "nat \<Rightarrow> char" where
  "digit_char d = char_of (48 + d)"

function show_nat :: "nat \<Rightarrow> string" where
  "show_nat n = (if n < 10 then [digit_char n] else show_nat (n div 10) @ [digit_char (n mod 10)])"
  by pat_completeness auto
termination
  by (relation "measure id") auto

definition is_digit :: "char \<Rightarrow> bool" where
  "is_digit c = (48 \<le> (of_char c :: nat) \<and> (of_char c :: nat) \<le> 57)"

definition digits_value :: "string \<Rightarrow> nat" where
  "digits_value s = foldl (\<lambda>acc c. 10 * acc + ((of_char c :: nat) - 48)) 0 s"

text \<open>
  The first position at which \<open>pat\<close> occurs in \<open>s\<close>: the text before it and the text
  after it.
\<close>

fun find_sub :: "string \<Rightarrow> string \<Rightarrow> (string \<times> string) option" where
  "find_sub pat [] = (if pat = [] then Some ([], []) else None)"
| "find_sub pat (x # xs) =
     (if prefix pat (x # xs) then Some ([], drop (length pat) (x # xs))
      else (case find_sub pat xs of
              None \<Rightarrow> None
            | Some (before, after) \<Rightarrow> Some (x # before, after)))"

definition ends_with :: "string \<Rightarrow> string \<Rightarrow> bool" where
  "ends_with s suf = suffix suf s"

subsection \<open>Objects\<close>

text \<open>
  A JavaScript object lists its own keys with the array indices first, in ascending
  numeric order, and the other names after them in the order of their creation
  (\<open>Object.keys\<close>, \<open>Object.values\<close>, \<open>Object.entries\<close>). An array index is the decimal
  form, without leading zeros, of a number below \<open>2^32 - 1\<close>.
\<close>

definition is_index :: "string \<Rightarrow> bool" where
  "is_index s =
     (s \<noteq> [] \<and> list_all is_digit s \<and> (s = ''0'' \<or> hd s \<noteq> CHR ''0'')
      \<and> digits_value s < 4294967295)"

definition own_keys :: "(string \<times> 'a) list \<Rightarrow> string list" where
  "own_keys ms =
     sort_key digits_value (filter is_index (map fst ms))
     @ filter (\<lambda>k. \<not> is_index k) (map fst ms)"

text \<open>
  Reading \<open>o[k]\<close> is \<open>map_of\<close>; writing \<open>o[k] = v\<close> keeps the place of a name that
  exists and creates a new name last.
\<close>

fun set_own :: "string \<Rightarrow> 'a \<Rightarrow> (string \<times> 'a) list \<Rightarrow> (string \<times> 'a) list" where
  "set_own k v [] = [(k, v)]"
| "set_own k v ((k', v') # ms) =
     (if k = k' then (k, v) # ms else (k', v') # set_own k v ms)"

text \<open>
  \<open>getObjMember\<close> of \<open>momoa.ts\<close>: the value of the first member of that name, and
  \<open>undefined\<close> when the node is missing or is not an object.
\<close>

fun getObjMember :: "node option \<Rightarrow> string \<Rightarrow> node option" where
  "getObjMember (Some (JObj ms)) key = map_of ms key"
| "getObjMember n key = None"

text \<open>
  Momoa's \<open>evaluate\<close>: the value of a node. The members of an object are assigned from
  left to right, so a repeated name keeps the place of its first member and the value
  of its last one.
\<close>

fun evaluate :: "node \<Rightarrow> json"
  and evaluate_elements :: "node list \<Rightarrow> json list"
  and evaluate_members :: "(string \<times> json) list \<Rightarrow> (string \<times> node) list \<Rightarrow> (string \<times> json) list"
where
  "evaluate (JArr xs) = JArr (evaluate_elements xs)"
| "evaluate (JObj ms) = JObj (evaluate_members [] ms)"
| "evaluate JUndefined = JUndefined"
| "evaluate JNull = JNull"
| "evaluate (JBool b) = JBool b"
| "evaluate (JNum n) = JNum n"
| "evaluate (JStr s) = JStr s"
| "evaluate_elements [] = []"
| "evaluate_elements (x # xs) = evaluate x # evaluate_elements xs"
| "evaluate_members acc [] = acc"
| "evaluate_members acc ((k, v) # ms) = evaluate_members (set_own k (evaluate v) acc) ms"

text \<open>
  A property read \<open>v.name\<close> or \<open>v[k]\<close> on a value that is neither \<open>undefined\<close> nor
  \<open>null\<close>: an own member of an object, an element of an array, a character of a string,
  and \<open>undefined\<close> otherwise. Inherited properties (\<open>length\<close>, \<open>constructor\<close>, ...) are
  not modelled; the parser reads none.
\<close>

fun get_prop :: "json \<Rightarrow> string \<Rightarrow> json" where
  "get_prop (JObj ms) k = (case map_of ms k of None \<Rightarrow> JUndefined | Some v \<Rightarrow> v)"
| "get_prop (JArr xs) k =
     (if is_index k \<and> digits_value k < length xs then xs ! digits_value k else JUndefined)"
| "get_prop (JStr s) k =
     (if is_index k \<and> digits_value k < length s then JStr [s ! digits_value k] else JUndefined)"
| "get_prop v k = JUndefined"

text \<open>\<open>Object.keys(v)\<close>; \<open>None\<close> is the \<open>TypeError\<close> that \<open>undefined\<close> and \<open>null\<close> raise.\<close>

fun object_keys :: "json \<Rightarrow> string list option" where
  "object_keys JUndefined = None"
| "object_keys JNull = None"
| "object_keys (JObj ms) = Some (own_keys ms)"
| "object_keys (JArr xs) = Some (map show_nat [0..<length xs])"
| "object_keys (JStr s) = Some (map show_nat [0..<length s])"
| "object_keys v = Some []"

section \<open>Groups\<close>

text \<open>
  \<open>GroupNormalized\<close>. The index \<open>groups\<close> is a JavaScript object keyed by the group's
  \<open>jsonID\<close>.
\<close>

record group =
  id_g :: string
  deprecated_g :: json
  description_g :: json
  extensions_g :: json
  type_g :: json
  tokens_g :: "string list"

type_synonym groups = "(string \<times> group) list"

text \<open>
  \<open>Array.prototype.sort\<close> with a comparator is a stable sort. The comparator of the source,
  \<open>a.localeCompare(b, 'en-us', {numeric: true})\<close>, belongs to the platform: the model
  takes \<open>le a b\<close>, true when the comparison is not positive, as a parameter.
\<close>

fun insert_by :: "('a \<Rightarrow> 'a \<Rightarrow> bool) \<Rightarrow> 'a \<Rightarrow> 'a list \<Rightarrow> 'a list" where
  "insert_by le x [] = [x]"
| "insert_by le x (y # ys) = (if le x y then x # y # ys else y # insert_by le x ys)"

definition sort_by :: "('a \<Rightarrow> 'a \<Rightarrow> bool) \<Rightarrow> 'a list \<Rightarrow> 'a list" where
  "sort_by le xs = foldr (insert_by le) xs []"

definition path_jsonID :: "string list \<Rightarrow> string" where
  "path_jsonID path = ''#/'' @ join ''/'' path"

definition GROUP_PROPERTIES :: "string list" where
  "GROUP_PROPERTIES = [''$deprecated'', ''$description'', ''$extensions'', ''$type'']"

definition new_group :: "string \<Rightarrow> group" where
  "new_group i =
     \<lparr>id_g = i, deprecated_g = JUndefined, description_g = JUndefined,
      extensions_g = JUndefined, type_g = JUndefined, tokens_g = []\<rparr>"

definition isParentGroup :: "string \<Rightarrow> string \<Rightarrow> bool" where
  "isParentGroup jsonID groupID = (prefix groupID jsonID \<and> groupID \<noteq> jsonID)"

text \<open>
  One round of the cascade loop of \<open>groupFromNode\<close>: \<open>p\<close> is \<open>groups[groupID]\<close>, which
  \<open>?.\<close> lets be missing, and \<open>g\<close> is \<open>groups[jsonID]\<close>.
\<close>

definition cascade_from :: "group option \<Rightarrow> group \<Rightarrow> group" where
  "cascade_from p g =
     g\<lparr>deprecated_g := coalesce (case p of None \<Rightarrow> JUndefined | Some q \<Rightarrow> deprecated_g q) (deprecated_g g),
       description_g := coalesce (case p of None \<Rightarrow> JUndefined | Some q \<Rightarrow> description_g q) (description_g g),
       type_g := coalesce (case p of None \<Rightarrow> JUndefined | Some q \<Rightarrow> type_g q) (type_g g)\<rparr>"

fun cascade :: "groups \<Rightarrow> string \<Rightarrow> string list \<Rightarrow> group \<Rightarrow> group" where
  "cascade gs jsonID [] g = g"
| "cascade gs jsonID (groupID # rest) g =
     cascade gs jsonID rest
       (if isParentGroup jsonID groupID then cascade_from (map_of gs groupID) g else g)"

text \<open>The assignment \<open>groups[jsonID][m.name.value] = evaluate(m.value)\<close>.\<close>

definition set_group_prop :: "string \<Rightarrow> json \<Rightarrow> group \<Rightarrow> group" where
  "set_group_prop k v g =
     (if k = ''$deprecated'' then g\<lparr>deprecated_g := v\<rparr>
      else if k = ''$description'' then g\<lparr>description_g := v\<rparr>
      else if k = ''$extensions'' then g\<lparr>extensions_g := v\<rparr>
      else if k = ''$type'' then g\<lparr>type_g := v\<rparr>
      else g)"

fun local_override :: "(string \<times> node) list \<Rightarrow> group \<Rightarrow> group" where
  "local_override [] g = g"
| "local_override ((k, v) # ms) g =
     local_override ms (if k \<in> set GROUP_PROPERTIES then set_group_prop k (evaluate v) g else g)"

text \<open>
  \<open>groupFromNode\<close>, on the members of the object node. The loops of the source write
  into \<open>groups[jsonID]\<close> in place; no round reads another group that an earlier round
  wrote (a parent is never the group itself), so the model carries the group through
  both loops and stores it once. The returned group is \<open>groups[jsonID]\<close> of the result.
\<close>

definition groupFromNode :: "(string \<times> node) list \<Rightarrow> string list \<Rightarrow> groups \<Rightarrow> groups" where
  "groupFromNode members path gs =
     (let jsonID = path_jsonID path;
          gs1 = (case map_of gs jsonID of
                   None \<Rightarrow> set_own jsonID (new_group (join ''.'' path)) gs
                 | Some g \<Rightarrow> gs);
          groupIDs = sort (own_keys gs1)
      in (case map_of gs1 jsonID of
            None \<Rightarrow> gs1
          | Some g \<Rightarrow>
              set_own jsonID (local_override members (cascade gs1 jsonID groupIDs g)) gs1))"

text \<open>
  The property read \<open>group[name]\<close> for the names of \<open>GROUP_PROPERTIES\<close>, and the value a
  node declares for a name: the last member of that name decides, as in \<open>local_override\<close>.
\<close>

definition group_prop :: "string \<Rightarrow> group \<Rightarrow> json" where
  "group_prop k g =
     (if k = ''$deprecated'' then deprecated_g g
      else if k = ''$description'' then description_g g
      else if k = ''$extensions'' then extensions_g g
      else if k = ''$type'' then type_g g
      else JUndefined)"

fun local_decl :: "string \<Rightarrow> (string \<times> node) list \<Rightarrow> json option" where
  "local_decl k [] = None"
| "local_decl k ((k', v) # ms) =
     (case local_decl k ms of
        Some w \<Rightarrow> Some w
      | None \<Rightarrow> if k' = k then Some (evaluate v) else None)"

subsection \<open>The cascade, read along the path\<close>

text \<open>
  The statement of the cascade: the \<open>jsonID\<close>s of the ancestors of the group at \<open>path\<close>,
  nearest first, and, walking them, the value for the property \<open>k\<close> of the first that
  is in the index with a value that is neither \<open>undefined\<close> nor \<open>null\<close>; \<open>dflt\<close>
  when there is none. These two follow the documentation and are compared with
  \<open>groupFromNode\<close>, which follows the code.
\<close>

definition ancestor_ids :: "string list \<Rightarrow> string list" where
  "ancestor_ids path = map (\<lambda>n. path_jsonID (take n path)) (rev [0..<length path])"

fun nearest_value :: "string \<Rightarrow> groups \<Rightarrow> string \<Rightarrow> string list \<Rightarrow> json \<Rightarrow> json" where
  "nearest_value k gs j [] dflt = dflt"
| "nearest_value k gs j (a # as) dflt =
     (case map_of gs a of
        None \<Rightarrow> nearest_value k gs j as dflt
      | Some p \<Rightarrow>
          if a \<noteq> j \<and> \<not> nullish (group_prop k p) then group_prop k p
          else nearest_value k gs j as dflt)"

definition valued :: "string \<Rightarrow> groups \<Rightarrow> string \<Rightarrow> string \<Rightarrow> bool" where
  "valued k gs j i =
     (case map_of gs i of
        None \<Rightarrow> False
      | Some p \<Rightarrow> isParentGroup j i \<and> \<not> nullish (group_prop k p))"

section \<open>Tokens\<close>

text \<open>
  The exceptions of the model: a \<open>TypeError\<close> of the JavaScript runtime (a property read
  on \<open>undefined\<close> or \<open>null\<close>) and the error a logger raises for a diagnostic. A
  diagnostic is kept as the template of its message with the values the source puts
  into it: \<open>CircularAlias\<close> is \<open>Circular alias detected.\<close>, \<open>CouldNotResolve a\<close> is
  \<open>Could not resolve alias a.\<close>, \<open>InvalidAliasSyntax\<close> is \<open>Invalid alias syntax.\<close>,
  \<open>CannotAlias x es\<close> is \<open>Cannot alias to $type "x" from $type "es joined by /".\<close> and
  \<open>InvalidAlias r\<close> is \<open>Invalid alias: r\<close>. Every entry has the group \<open>parser\<close> and the
  label \<open>init\<close>; the node and the source text of an entry are left out.
\<close>

datatype message =
    CircularAlias
  | CouldNotResolve string
  | InvalidAliasSyntax
  | CannotAlias json "json list"
  | InvalidAlias string

datatype exn = TypeError | LoggerError message

text \<open>
  The structure \<open>partialAliasOf\<close>: token IDs at the leaves, under arrays and objects
  that the linker creates empty and fills by key, so both are kept as their own
  properties.
\<close>

datatype palias =
    PUndefined
  | PStr string
  | PArr "(string \<times> palias) list"
  | PObj "(string \<times> palias) list"

text \<open>\<open>TokenNormalized['mode'][string]\<close>, with \<open>source.node\<close> of the mode.\<close>

record mode_state =
  value_m :: json
  aliasOf_m :: "string option"
  aliasChain_m :: "string option list option"
  aliasedBy_m :: "string option list option"
  partialAliasOf_m :: palias
  originalValue_m :: json
  dependencies_m :: "string list option"
  source_node_m :: "node option"

text \<open>
  \<open>TokenNormalized\<close>. \<open>group_t\<close> is the key of the token's group in the index (the
  source holds the group object itself), \<open>None\<close> when there is none.
\<close>

record token =
  id_t :: string
  type_t :: json
  description_t :: json
  deprecated_t :: json
  value_t :: json
  extensions_t :: json
  aliasChain_t :: "string option list option"
  aliasedBy_t :: "string option list option"
  aliasOf_t :: "string option"
  partialAliasOf_t :: palias
  dependencies_t :: "string list option"
  group_t :: "string option"
  originalValue_t :: json
  source_filename_t :: "string option"
  source_node_t :: node
  jsonID_t :: string
  mode_t :: "(string \<times> mode_state) list"

text \<open>\<open>Config['ignore']\<close>; a missing \<open>deprecated\<close> is \<open>False\<close>.\<close>

record ignore_cfg =
  tokens_i :: "string list option"
  deprecated_i :: bool

definition isToken :: "node \<Rightarrow> string list \<Rightarrow> bool" where
  "isToken nd path =
     ((case nd of JObj ms \<Rightarrow> True | _ \<Rightarrow> False)
      \<and> getObjMember (Some nd) ''$value'' \<noteq> None
      \<and> ''$extensions'' \<notin> set path)"

text \<open>
  The registration of the token in its group: \<open>group.tokens.push(id)\<close> and the sort,
  when the group exists and does not list the token yet.
\<close>

definition register_token ::
  "(string \<Rightarrow> string \<Rightarrow> bool) \<Rightarrow> string \<Rightarrow> string \<Rightarrow> groups \<Rightarrow> groups" where
  "register_token le i groupID gs =
     (case map_of gs groupID of
        None \<Rightarrow> gs
      | Some g \<Rightarrow>
          if i \<in> set (tokens_g g) then gs
          else set_own groupID (g\<lparr>tokens_g := sort_by le (tokens_g g @ [i])\<rparr>) gs)"

definition new_mode :: "json \<Rightarrow> node option \<Rightarrow> mode_state" where
  "new_mode v src =
     \<lparr>value_m = v, aliasOf_m = None, aliasChain_m = None, aliasedBy_m = None,
      partialAliasOf_m = PUndefined, originalValue_m = JUndefined, dependencies_m = None,
      source_node_m = src\<rparr>"

text \<open>The loop over \<open>Object.keys(token.$extensions.mode)\<close>.\<close>

fun add_modes ::
  "node option \<Rightarrow> json \<Rightarrow> string list \<Rightarrow> (string \<times> mode_state) list \<Rightarrow> (string \<times> mode_state) list"
where
  "add_modes modeNode modes [] acc = acc"
| "add_modes modeNode modes (m # rest) acc =
     add_modes modeNode modes rest
       (set_own m (new_mode (get_prop modes m) (getObjMember modeNode m)) acc)"

definition ignored ::
  "(string list \<Rightarrow> string \<Rightarrow> bool) \<Rightarrow> ignore_cfg option \<Rightarrow> token \<Rightarrow> bool" where
  "ignored wcmatch ignore t =
     (case ignore of
        None \<Rightarrow> False
      | Some ig \<Rightarrow>
          (deprecated_i ig \<and> truthy (deprecated_t t))
          \<or> (case tokens_i ig of None \<Rightarrow> False | Some pats \<Rightarrow> wcmatch pats (id_t t)))"

text \<open>
  The object literal of \<open>tokenFromNode\<close>: the token as assembled from the evaluated node
  and its group (\<open>grp\<close>, at the key \<open>groupID\<close>), before the ignore filter.
\<close>

definition assemble_token ::
  "node \<Rightarrow> string list \<Rightarrow> string option \<Rightarrow> string \<Rightarrow> group option \<Rightarrow> token" where
  "assemble_token nd path filename groupID grp =
     (let originalToken = evaluate nd;
          own_type = get_prop originalToken ''$type'';
          own_deprecated = get_prop originalToken ''$deprecated''
      in \<lparr>id_t = join ''.'' path,
          type_t =
            (if truthy own_type then own_type
             else (case grp of None \<Rightarrow> JUndefined | Some g \<Rightarrow> type_g g)),
          description_t = or_else (get_prop originalToken ''$description'') JUndefined,
          deprecated_t =
            coalesce
              (if nullish own_deprecated
               then (case grp of None \<Rightarrow> JUndefined | Some g \<Rightarrow> deprecated_g g)
               else own_deprecated)
              JUndefined,
          value_t = get_prop originalToken ''$value'',
          extensions_t = or_else (get_prop originalToken ''$extensions'') JUndefined,
          aliasChain_t = None, aliasedBy_t = None, aliasOf_t = None,
          partialAliasOf_t = PUndefined, dependencies_t = None,
          group_t = (case grp of None \<Rightarrow> None | Some g \<Rightarrow> Some groupID),
          originalValue_t = JUndefined,
          source_filename_t = filename,
          source_node_t = nd,
          jsonID_t = path_jsonID path,
          mode_t =
            [(''.'', new_mode (get_prop originalToken ''$value'')
                       (case getObjMember (Some nd) ''$value'' of
                          None \<Rightarrow> Some nd
                        | Some v \<Rightarrow> Some v))]\<rparr>)"

text \<open>
  The end of \<open>tokenFromNode\<close>: the modes of \<open>$extensions.mode\<close>. \<open>token.$extensions\<close> is
  \<open>undefined\<close> when the evaluated member is falsy, and its property \<open>mode\<close> must have
  keys.
\<close>

definition expand_modes :: "node \<Rightarrow> token \<Rightarrow> exn + token" where
  "expand_modes nd t =
     (case getObjMember (Some nd) ''$extensions'' of
        None \<Rightarrow> Inr t
      | Some ext \<Rightarrow>
          if extensions_t t = JUndefined then Inl TypeError
          else
            (case object_keys (get_prop (extensions_t t) ''mode'') of
               None \<Rightarrow> Inl TypeError
             | Some ks \<Rightarrow>
                 Inr (t\<lparr>mode_t :=
                   add_modes (getObjMember (Some ext) ''mode'')
                     (get_prop (extensions_t t) ''mode'') ks (mode_t t)\<rparr>)))"

text \<open>
  \<open>tokenFromNode\<close>. The result is the returned token (\<open>None\<close> for \<open>undefined\<close>) or the
  exception, together with the group index, which the function changes in place.
  \<open>group.$type\<close> and \<open>group.$deprecated\<close> are read only when the token's own value does
  not decide, and raise a \<open>TypeError\<close> when the token has no group. \<open>wcmatch\<close> is the
  matcher of the package \<open>wildcard-match\<close>, a parameter.
\<close>

definition tokenFromNode ::
  "(string \<Rightarrow> string \<Rightarrow> bool) \<Rightarrow> (string list \<Rightarrow> string \<Rightarrow> bool) \<Rightarrow> node \<Rightarrow> groups \<Rightarrow> string list
     \<Rightarrow> string option \<Rightarrow> ignore_cfg option \<Rightarrow> (exn + token option) \<times> groups" where
  "tokenFromNode le wcmatch nd gs path filename ignore =
     (if \<not> isToken nd path then (Inr None, gs)
      else
        let groupID = path_jsonID (butlast path);
            gs1 = register_token le (join ''.'' path) groupID gs;
            grp = map_of gs1 groupID
        in if grp = None
              \<and> (\<not> truthy (get_prop (evaluate nd) ''$type'')
                 \<or> nullish (get_prop (evaluate nd) ''$deprecated''))
           then (Inl TypeError, gs1)
           else
             let t = assemble_token nd path filename groupID grp
             in if ignored wcmatch ignore t then (Inr None, gs1)
                else (case expand_modes nd t of
                        Inl e \<Rightarrow> (Inl e, gs1)
                      | Inr t' \<Rightarrow> (Inr (Some t'), gs1)))"

section \<open>The alias resolver\<close>

text \<open>
  Modelled from the spec: \<open>isAlias\<close> and \<open>parseAlias\<close> of \<open>@terrazzo/token-tools\<close>, which
  are not among the sources. The specification has an alias be a string of the exact
  shape \<open>{dotted.path}\<close>, matched from end to end: an opening brace, a text without
  braces that is not empty, a closing brace. \<open>parseAlias\<close> gives the text between the
  braces and leaves any other string as it is, which is what \<open>aliasToRef\<close> tests.
  \<open>as_alias\<close> is the test \<open>isAlias(v)\<close> on a value that need not be a string.
\<close>

definition isAlias :: "string \<Rightarrow> bool" where
  "isAlias s =
     (2 < length s \<and> hd s = CHR ''{'' \<and> last s = CHR ''}''
      \<and> list_all (\<lambda>c. c \<noteq> CHR ''{'' \<and> c \<noteq> CHR ''}'') (butlast (tl s)))"

definition parseAlias :: "string \<Rightarrow> string" where
  "parseAlias s = (if isAlias s then butlast (tl s) else s)"

fun as_alias :: "json \<Rightarrow> string option" where
  "as_alias (JStr s) = (if isAlias s then Some s else None)"
| "as_alias v = None"

text \<open>
  \<open>aliasToRef\<close>. The three \<open>replace\<close> calls of the source run one after the other; none
  makes a character that a later one rewrites, so they are one pass over the id.
\<close>

definition escape_ref :: "string \<Rightarrow> string" where
  "escape_ref i =
     concat (map (\<lambda>c. if c = CHR ''~'' then ''~0''
                       else if c = CHR ''/'' then ''~1''
                       else if c = CHR ''.'' then ''/''
                       else [c]) i)"

definition aliasToRef :: "string \<Rightarrow> string option" where
  "aliasToRef alias =
     (let i = parseAlias alias
      in if i = alias then None else Some (''#/'' @ escape_ref i @ ''/$value''))"

text \<open>The key of the target token: \<open>$ref.replace(/\/\$value$/, '')\<close>.\<close>

definition strip_value_suffix :: "string \<Rightarrow> string" where
  "strip_value_suffix r = (if suffix ''/$value'' r then take (length r - 7) r else r)"

text \<open>
  The token set is a JavaScript object keyed by \<open>jsonID\<close>. A call of \<open>resolveInner\<close>
  ends with the exception or the returned \<open>jsonID\<close>, the array \<open>refChain\<close> as the call
  leaves it and the diagnostics reported so far.
\<close>

type_synonym tokens = "(string \<times> token) list"

type_synonym resolved = "(exn + string) \<times> string list \<times> message list"

text \<open>
  \<open>resolveInner\<close>. The logger is not among the sources; \<open>logger.error\<close> records the
  diagnostic, and whether it then raises or returns is the parameter \<open>throws\<close>. The
  source has no \<open>return\<close> after a report: when the logger returns, the function goes on
  to \<open>refChain.push(nextID!.$ref)\<close> and to \<open>nextToken!.mode\<close>, which raise a \<open>TypeError\<close>
  on \<open>undefined\<close>. The recursion need not end, so the function is partial: \<open>None\<close> is a
  call that never returns (in JavaScript, until the stack is exhausted).
\<close>

partial_function (option) resolveInner ::
  "bool \<Rightarrow> tokens \<Rightarrow> string \<Rightarrow> string \<Rightarrow> string list \<Rightarrow> message list \<Rightarrow> resolved option"
where
  "resolveInner throws toks mode alias refChain diag =
     (let nextID = aliasToRef alias;
          circular = (case nextID of None \<Rightarrow> False | Some r \<Rightarrow> r \<in> set refChain);
          diag1 = (if circular then diag @ [CircularAlias] else diag)
      in if circular \<and> throws then Some (Inl (LoggerError CircularAlias), refChain, diag1)
         else
           let nextToken =
                 (case nextID of None \<Rightarrow> None | Some r \<Rightarrow> map_of toks (strip_value_suffix r));
               diag2 = (if nextToken = None then diag1 @ [CouldNotResolve alias] else diag1)
           in if nextToken = None \<and> throws
              then Some (Inl (LoggerError (CouldNotResolve alias)), refChain, diag2)
              else
                (case nextID of
                   None \<Rightarrow> Some (Inl TypeError, refChain, diag2)
                 | Some r \<Rightarrow>
                     (case nextToken of
                        None \<Rightarrow> Some (Inl TypeError, refChain @ [r], diag2)
                      | Some t \<Rightarrow>
                          (case map_of (mode_t t) mode of
                             None \<Rightarrow> Some (Inl TypeError, refChain @ [r], diag2)
                           | Some ms \<Rightarrow>
                               (case as_alias (originalValue_m ms) of
                                  Some a \<Rightarrow> resolveInner throws toks mode a (refChain @ [r]) diag2
                                | None \<Rightarrow> Some (Inr (jsonID_t t), refChain @ [r], diag2))))))"

text \<open>
  The equation of \<open>resolveInner\<close> evaluates its calls on a given token set.
\<close>

declare resolveInner.simps [code]

text \<open>
  One hop of the chain: the alias that the target of \<open>alias\<close> holds as its
  \<open>originalValue\<close> in the mode. A set of aliases is endless when every hop from it is
  defined and leads back into it, as on a cycle and on every chain that runs into one.
  \<open>unvisited\<close> counts the refs of tokens that the chain has not met.
\<close>

definition alias_step :: "tokens \<Rightarrow> string \<Rightarrow> string \<Rightarrow> string option" where
  "alias_step toks mode alias =
     (case aliasToRef alias of
        None \<Rightarrow> None
      | Some r \<Rightarrow>
          (case map_of toks (strip_value_suffix r) of
             None \<Rightarrow> None
           | Some t \<Rightarrow>
               (case map_of (mode_t t) mode of
                  None \<Rightarrow> None
                | Some ms \<Rightarrow> as_alias (originalValue_m ms))))"

definition endless :: "tokens \<Rightarrow> string \<Rightarrow> string set \<Rightarrow> bool" where
  "endless toks mode S = (\<forall>a\<in>S. \<exists>b\<in>S. alias_step toks mode a = Some b)"

definition unvisited :: "tokens \<Rightarrow> string list \<Rightarrow> nat" where
  "unvisited toks refChain =
     card ((\<lambda>k. k @ ''/$value'') ` fst ` set toks - set refChain)"

text \<open>
  \<open>RefMapEntry\<close>, \<open>RefMap\<close> and \<open>ModeRefMap\<close> of \<open>types.ts\<close>; a mode of the map may hold
  \<open>undefined\<close>. The state of the resolver and of the linker: the token set and the map,
  both changed in place, and the diagnostics the logger received.
\<close>

record RefMapEntry =
  filename_r :: "string option"
  refChain_r :: "string list"

type_synonym RefMap = "(string \<times> RefMapEntry) list"

type_synonym ModeRefMap = "(string \<times> RefMap option) list"

record rstate =
  tokens_s :: tokens
  modeRefMap_s :: ModeRefMap
  diag_s :: "message list"

text \<open>\<open>logger.error(entry)\<close>: the entry is recorded, and raised when the logger throws.\<close>

definition logger_error :: "bool \<Rightarrow> message \<Rightarrow> rstate \<Rightarrow> exn option \<times> rstate" where
  "logger_error throws m st =
     ((if throws then Some (LoggerError m) else None), st\<lparr>diag_s := diag_s st @ [m]\<rparr>)"

text \<open>
  The table \<open>EXPECTED_NESTED_ALIAS\<close>, read at \<open>expectedTypes[0]\<close> and then at a key.
  \<open>expectedTypes\<close> is \<open>None\<close> for \<open>undefined\<close>. A \<open>$type\<close> that is not a string names no
  entry of the table; two \<open>$type\<close> values are compared by structure.
\<close>

definition EXPECTED_NESTED_ALIAS :: "(string \<times> (string \<times> string list) list) list" where
  "EXPECTED_NESTED_ALIAS =
     [(''border'',
         [(''color'', [''color'']), (''stroke'', [''strokeStyle'']), (''width'', [''dimension''])]),
      (''gradient'', [(''color'', [''color'']), (''position'', [''number''])]),
      (''shadow'',
         [(''color'', [''color'']), (''offsetX'', [''dimension'']), (''offsetY'', [''dimension'']),
          (''blur'', [''dimension'']), (''spread'', [''dimension'']), (''inset'', [''boolean''])]),
      (''strokeStyle'', [(''dashArray'', [''dimension''])]),
      (''transition'',
         [(''duration'', [''duration'']), (''delay'', [''duration'']),
          (''timingFunction'', [''cubicBezier''])]),
      (''typography'',
         [(''fontFamily'', [''fontFamily'']), (''fontWeight'', [''fontWeight'']),
          (''fontSize'', [''dimension'']), (''lineHeight'', [''dimension'', ''number'']),
          (''letterSpacing'', [''dimension''])])]"

definition nested_slots :: "json list option \<Rightarrow> (string \<times> string list) list option" where
  "nested_slots expectedTypes =
     (case expectedTypes of
        Some (JStr ty # rest) \<Rightarrow> map_of EXPECTED_NESTED_ALIAS ty
      | _ \<Rightarrow> None)"

definition slot_types :: "(string \<times> string list) list \<Rightarrow> string \<Rightarrow> json list option" where
  "slot_types slots key = map_option (map JStr) (map_of slots key)"

text \<open>
  The arguments of the recursive calls: the expected types of the elements of an array
  (the special case \<open>cubicBezier\<close>), and the node \<open>node.elements[i].value\<close>, whose
  absence raises a \<open>TypeError\<close> (\<open>None\<close>).
\<close>

definition element_types :: "json list option \<Rightarrow> json list option" where
  "element_types expectedTypes =
     (case expectedTypes of
        None \<Rightarrow> None
      | Some es \<Rightarrow> if JStr ''cubicBezier'' \<in> set es then Some [JStr ''number''] else Some es)"

definition element_node :: "node option \<Rightarrow> nat \<Rightarrow> node option" where
  "element_node nd i =
     (case nd of
        Some (JArr es) \<Rightarrow> if i < length es then Some (es ! i) else None
      | _ \<Rightarrow> None)"

text \<open>The members of an object in the order in which \<open>Object.keys\<close> lists them.\<close>

definition js_order :: "(string \<times> 'a) list \<Rightarrow> (string \<times> 'a) list" where
  "js_order ms =
     sort_key (\<lambda>p. digits_value (fst p)) (filter (\<lambda>p. is_index (fst p)) ms)
     @ filter (\<lambda>p. \<not> is_index (fst p)) ms"

text \<open>
  The steps of \<open>traverseAndResolve\<close> after \<open>resolveInner\<close> has returned: the type check
  against \<open>tokens[resolvedID]\<close>, the entry of \<open>modeRefMap[mode]\<close> at the joined path, and
  the value returned, \<open>mode[mode]?.$value || $value\<close> of the terminal token.
\<close>

definition check_type :: "bool \<Rightarrow> json list option \<Rightarrow> token option \<Rightarrow> rstate \<Rightarrow> exn option \<times> rstate" where
  "check_type throws expectedTypes target st =
     (case expectedTypes of
        None \<Rightarrow> (None, st)
      | Some [] \<Rightarrow> (None, st)
      | Some (e # es) \<Rightarrow>
          (case target of
             None \<Rightarrow> (Some TypeError, st)
           | Some t \<Rightarrow>
               if type_t t \<in> set (e # es) then (None, st)
               else logger_error throws (CannotAlias (type_t t) (e # es)) st))"

definition record_ref :: "string \<Rightarrow> string \<Rightarrow> RefMapEntry \<Rightarrow> rstate \<Rightarrow> exn option \<times> rstate" where
  "record_ref mode key entry st =
     (case map_of (modeRefMap_s st) mode of
        Some (Some refMap) \<Rightarrow>
          (None, st\<lparr>modeRefMap_s :=
                     set_own mode (Some (set_own key entry refMap)) (modeRefMap_s st)\<rparr>)
      | _ \<Rightarrow> (Some TypeError, st))"

definition resolved_value :: "string \<Rightarrow> token option \<Rightarrow> json option" where
  "resolved_value mode target =
     (case target of
        None \<Rightarrow> None
      | Some t \<Rightarrow>
          Some (or_else (case map_of (mode_t t) mode of
                           None \<Rightarrow> JUndefined
                         | Some ms \<Rightarrow> value_m ms)
                        (value_t t)))"

text \<open>
  The branch of \<open>traverseAndResolve\<close> for a string that is an alias. The results of the
  traversal are triples: the value left at the position (the returned value, or on an
  exception the argument as the call left it), the exception if one was raised, and the
  state.
\<close>

definition resolve_site ::
  "bool \<Rightarrow> string \<Rightarrow> string option \<Rightarrow> string \<Rightarrow> json list option \<Rightarrow> string list \<Rightarrow> rstate
     \<Rightarrow> (json \<times> exn option \<times> rstate) option" where
  "resolve_site throws mode filename s expectedTypes path st =
     (case resolveInner throws (tokens_s st) mode s [] (diag_s st) of
        None \<Rightarrow> None
      | Some (Inl e, refChain, diag) \<Rightarrow> Some (JStr s, Some e, st\<lparr>diag_s := diag\<rparr>)
      | Some (Inr resolvedID, refChain, diag) \<Rightarrow>
          (let target = map_of (tokens_s st) resolvedID
           in case check_type throws expectedTypes target (st\<lparr>diag_s := diag\<rparr>) of
                (Some e, st1) \<Rightarrow> Some (JStr s, Some e, st1)
              | (None, st1) \<Rightarrow>
                  (case record_ref mode (join ''/'' path)
                          \<lparr>filename_r = filename, refChain_r = refChain\<rparr> st1 of
                     (Some e, st2) \<Rightarrow> Some (JStr s, Some e, st2)
                   | (None, st2) \<Rightarrow>
                       (case resolved_value mode target of
                          None \<Rightarrow> Some (JStr s, Some TypeError, st2)
                        | Some v \<Rightarrow> Some (v, None, st2)))))"

text \<open>The order of \<open>Object.keys\<close> permutes the members; their sizes add up the same.\<close>

lemma size_list_insort_key:
  "size_list f (insort_key g x xs) = Suc (f x + size_list f xs)"
  by (induction xs) auto

lemma size_list_sort_key: "size_list f (sort_key g xs) = size_list f xs"
  by (induction xs) (auto simp: size_list_insort_key)

lemma size_list_filter_split:
  "size_list f (filter P xs) + size_list f (filter (\<lambda>x. \<not> P x) xs) = size_list f xs"
  by (induction xs) auto

lemma size_list_js_order: "size_list f (js_order ms) = size_list f ms"
  unfolding js_order_def by (simp add: size_list_sort_key size_list_filter_split)

lemma size_list_snd_le:
  "size_list (\<lambda>p. size (snd p)) ms \<le> size_list (size_prod (\<lambda>x. 0) size) ms"
  by (induction ms) auto

text \<open>
  \<open>traverseAndResolve\<close>, with its loop over the elements of an array (from index \<open>i\<close>)
  and its loop over the keys of an object (\<open>cur\<close> is the object as the loop has left it,
  \<open>slots\<close> the table entry of the composite type). \<open>value[i] = ...\<close> and
  \<open>value[key] = ...\<close> write into the value in place, so what an inner call has written
  stays in the value when a later call raises. \<open>typeof null\<close> is \<open>'object'\<close>, and
  \<open>Object.keys(null)\<close> raises. Values are modelled by their content: that a resolved
  value is the very object of the terminal token is not modelled.
\<close>

function traverseAndResolve ::
    "bool \<Rightarrow> string \<Rightarrow> string option \<Rightarrow> json \<Rightarrow> node option \<Rightarrow> json list option \<Rightarrow> string list
       \<Rightarrow> rstate \<Rightarrow> (json \<times> exn option \<times> rstate) option"
  and traverse_elements ::
    "bool \<Rightarrow> string \<Rightarrow> string option \<Rightarrow> nat \<Rightarrow> json list \<Rightarrow> node option \<Rightarrow> json list option
       \<Rightarrow> string list \<Rightarrow> rstate \<Rightarrow> (json list \<times> exn option \<times> rstate) option"
  and traverse_members ::
    "bool \<Rightarrow> string \<Rightarrow> string option \<Rightarrow> (string \<times> json) list \<Rightarrow> (string \<times> json) list
       \<Rightarrow> node option \<Rightarrow> (string \<times> string list) list \<Rightarrow> string list \<Rightarrow> rstate
       \<Rightarrow> ((string \<times> json) list \<times> exn option \<times> rstate) option"
where
  "traverseAndResolve throws mode filename (JStr s) nd expectedTypes path st =
     (if isAlias s then resolve_site throws mode filename s expectedTypes path st
      else if (case expectedTypes of None \<Rightarrow> True | Some es \<Rightarrow> JStr ''string'' \<notin> set es)
              \<and> (CHR ''{'' \<in> set s \<or> CHR ''}'' \<in> set s)
      then (case logger_error throws InvalidAliasSyntax st of (e, st1) \<Rightarrow> Some (JStr s, e, st1))
      else Some (JStr s, None, st))"
| "traverseAndResolve throws mode filename (JArr xs) nd expectedTypes path st =
     (case traverse_elements throws mode filename 0 xs nd (element_types expectedTypes) path st of
        None \<Rightarrow> None
      | Some (ys, e, st1) \<Rightarrow> Some (JArr ys, e, st1))"
| "traverseAndResolve throws mode filename (JObj ms) nd expectedTypes path st =
     (case nested_slots expectedTypes of
        None \<Rightarrow> Some (JObj ms, None, st)
      | Some slots \<Rightarrow>
          (case traverse_members throws mode filename (js_order ms) ms nd slots path st of
             None \<Rightarrow> None
           | Some (ms1, e, st1) \<Rightarrow> Some (JObj ms1, e, st1)))"
| "traverseAndResolve throws mode filename JNull nd expectedTypes path st =
     Some (JNull, Some TypeError, st)"
| "traverseAndResolve throws mode filename JUndefined nd expectedTypes path st =
     Some (JUndefined, None, st)"
| "traverseAndResolve throws mode filename (JBool b) nd expectedTypes path st =
     Some (JBool b, None, st)"
| "traverseAndResolve throws mode filename (JNum n) nd expectedTypes path st =
     Some (JNum n, None, st)"
| "traverse_elements throws mode filename i [] nd expectedTypes path st = Some ([], None, st)"
| "traverse_elements throws mode filename i (x # xs) nd expectedTypes path st =
     (if \<not> truthy x
      then (case traverse_elements throws mode filename (Suc i) xs nd expectedTypes path st of
              None \<Rightarrow> None
            | Some (ys, e, st1) \<Rightarrow> Some (x # ys, e, st1))
      else
        (case element_node nd i of
           None \<Rightarrow> Some (x # xs, Some TypeError, st)
         | Some n \<Rightarrow>
             (case traverseAndResolve throws mode filename x (Some n) expectedTypes
                     (path @ [show_nat i]) st of
                None \<Rightarrow> None
              | Some (y, Some e, st1) \<Rightarrow> Some (y # xs, Some e, st1)
              | Some (y, None, st1) \<Rightarrow>
                  (case traverse_elements throws mode filename (Suc i) xs nd expectedTypes path st1 of
                     None \<Rightarrow> None
                   | Some (ys, e, st2) \<Rightarrow> Some (y # ys, e, st2)))))"
| "traverse_members throws mode filename [] cur nd slots path st = Some (cur, None, st)"
| "traverse_members throws mode filename ((key, v) # rest) cur nd slots path st =
     (case traverseAndResolve throws mode filename v (getObjMember nd key) (slot_types slots key)
             (path @ [key]) st of
        None \<Rightarrow> None
      | Some (w, Some e, st1) \<Rightarrow> Some (set_own key w cur, Some e, st1)
      | Some (w, None, st1) \<Rightarrow>
          traverse_members throws mode filename rest (set_own key w cur) nd slots path st1)"
  by pat_completeness auto
termination
  by (relation "measure (\<lambda>x. case x of
        Inl (throws, mode, filename, v, rest) \<Rightarrow> size v
      | Inr (Inl (throws, mode, filename, i, xs, rest)) \<Rightarrow> size_list size xs
      | Inr (Inr (throws, mode, filename, todo, rest)) \<Rightarrow> size_list (\<lambda>p. size (snd p)) todo)")
     (auto simp: size_list_js_order less_Suc_eq_le size_list_snd_le)

text \<open>
  The assignments at the end of the loop body of \<open>resolveAliases\<close>:
  \<open>token.mode[mode].$value = finalValue\<close> and \<open>token.$value = token.mode[mode].$value\<close>.
\<close>

definition update_own :: "string \<Rightarrow> ('a \<Rightarrow> 'a) \<Rightarrow> (string \<times> 'a) list \<Rightarrow> (string \<times> 'a) list" where
  "update_own k f ms = map (\<lambda>(k', v). if k' = k then (k', f v) else (k', v)) ms"

definition set_mode_value :: "string \<Rightarrow> string \<Rightarrow> json \<Rightarrow> tokens \<Rightarrow> tokens" where
  "set_mode_value key mode v toks =
     update_own key
       (\<lambda>t. t\<lparr>mode_t := update_own mode (\<lambda>ms. ms\<lparr>value_m := v\<rparr>) (mode_t t)\<rparr>) toks"

definition promote_value :: "string \<Rightarrow> string \<Rightarrow> tokens \<Rightarrow> tokens" where
  "promote_value key mode toks =
     update_own key
       (\<lambda>t. case map_of (mode_t t) mode of
               None \<Rightarrow> t
             | Some ms \<Rightarrow> t\<lparr>value_t := value_m ms\<rparr>) toks"

text \<open>
  The body of the loop over the modes of a token, the two loops, and \<open>resolveAliases\<close>
  itself, which starts without diagnostics. An exception ends the whole call; what the
  traversal had written into the mode's value by then stays there.
\<close>

definition resolve_mode :: "bool \<Rightarrow> string \<Rightarrow> string \<Rightarrow> rstate \<Rightarrow> (exn option \<times> rstate) option" where
  "resolve_mode throws key mode st =
     (case map_of (tokens_s st) key of
        None \<Rightarrow> Some (None, st)
      | Some t \<Rightarrow>
          (case map_of (mode_t t) mode of
             None \<Rightarrow> Some (None, st)
           | Some ms \<Rightarrow>
               (case traverseAndResolve throws mode (source_filename_t t) (value_m ms)
                       (getObjMember (Some (source_node_t t)) ''$value'')
                       (if truthy (type_t t) then Some [type_t t] else None)
                       [jsonID_t t, ''$value''] st of
                  None \<Rightarrow> None
                | Some (v, Some e, st1) \<Rightarrow>
                    Some (Some e,
                          st1\<lparr>tokens_s := (if v = value_m ms then tokens_s st1
                                           else set_mode_value key mode v (tokens_s st1))\<rparr>)
                | Some (finalValue, None, st1) \<Rightarrow>
                    (let toks1 = (if truthy finalValue
                                  then set_mode_value key mode finalValue (tokens_s st1)
                                  else tokens_s st1);
                         toks2 = (if mode = ''.'' then promote_value key mode toks1 else toks1)
                     in Some (None, st1\<lparr>tokens_s := toks2\<rparr>)))))"

fun resolve_modes :: "bool \<Rightarrow> string \<Rightarrow> string list \<Rightarrow> rstate \<Rightarrow> (exn option \<times> rstate) option" where
  "resolve_modes throws key [] st = Some (None, st)"
| "resolve_modes throws key (mode # rest) st =
     (case resolve_mode throws key mode st of
        None \<Rightarrow> None
      | Some (Some e, st1) \<Rightarrow> Some (Some e, st1)
      | Some (None, st1) \<Rightarrow> resolve_modes throws key rest st1)"

fun resolve_tokens :: "bool \<Rightarrow> string list \<Rightarrow> rstate \<Rightarrow> (exn option \<times> rstate) option" where
  "resolve_tokens throws [] st = Some (None, st)"
| "resolve_tokens throws (key # rest) st =
     (case resolve_modes throws key
             (case map_of (tokens_s st) key of None \<Rightarrow> [] | Some t \<Rightarrow> own_keys (mode_t t)) st of
        None \<Rightarrow> None
      | Some (Some e, st1) \<Rightarrow> Some (Some e, st1)
      | Some (None, st1) \<Rightarrow> resolve_tokens throws rest st1)"

definition resolveAliases :: "bool \<Rightarrow> tokens \<Rightarrow> ModeRefMap \<Rightarrow> (exn option \<times> rstate) option" where
  "resolveAliases throws toks modeRefMap =
     resolve_tokens throws (own_keys toks)
       \<lparr>tokens_s = toks, modeRefMap_s = modeRefMap, diag_s = []\<rparr>"

text \<open>
  \<open>tokens[key].mode[mode].$value\<close>, when the token and the mode exist.
\<close>

definition mode_value :: "tokens \<Rightarrow> string \<Rightarrow> string \<Rightarrow> json option" where
  "mode_value toks key mode =
     (case map_of toks key of
        None \<Rightarrow> None
      | Some t \<Rightarrow> map_option value_m (map_of (mode_t t) mode))"

section \<open>The graph linker\<close>

text \<open>
  \<open>getTokenRef\<close> is \<open>ref.replace(/\/\$value\/?.*/, '')\<close>: from the first \<open>/$value\<close> to
  the end of the line, \<open>.\<close> matching no line terminator. \<open>partial_text\<close> is
  \<open>jsonID.replace(/.*\/\$value\/?/, '')\<close>: in the first line that holds \<open>/$value\<close>,
  everything up to its last occurrence and the \<open>/\<close> after it. \<open>partial_keys\<close> is the
  rest, split at \<open>/\<close>, without the empty parts.
\<close>

definition is_line_terminator :: "char \<Rightarrow> bool" where
  "is_line_terminator c = (c = CHR 0x0A \<or> c = CHR 0x0D)"

definition getTokenRef :: "string \<Rightarrow> string" where
  "getTokenRef ref =
     (case find_sub ''/$value'' ref of
        None \<Rightarrow> ref
      | Some (before, after) \<Rightarrow> before @ dropWhile (\<lambda>c. \<not> is_line_terminator c) after)"

definition after_last :: "string \<Rightarrow> string \<Rightarrow> string option" where
  "after_last pat s =
     (case find_sub (rev pat) (rev s) of
        None \<Rightarrow> None
      | Some (before, after) \<Rightarrow> Some (rev before))"

function partial_text :: "string \<Rightarrow> string" where
  "partial_text s =
     (let line = takeWhile (\<lambda>c. \<not> is_line_terminator c) s;
          rest = dropWhile (\<lambda>c. \<not> is_line_terminator c) s
      in case after_last ''/$value'' line of
           Some tail \<Rightarrow> (if prefix ''/'' tail then tl tail else tail) @ rest
         | None \<Rightarrow>
             (case rest of
                [] \<Rightarrow> s
              | c # cs \<Rightarrow> line @ c # partial_text cs))"
  by pat_completeness auto
termination
proof (relation "measure length")
  show "wf (measure length)" by simp
next
  fix s :: string and x xa x2 xb
  assume a: "xa = dropWhile (\<lambda>c. \<not> is_line_terminator c) s" and b: "xa = x2 # xb"
  have "dropWhile (\<lambda>c. \<not> is_line_terminator c) s = x2 # xb"
    using a b by (rule subst)
  then have "length (dropWhile (\<lambda>c. \<not> is_line_terminator c) s) = Suc (length xb)"
    by (simp only: length_Cons)
  moreover have "length (dropWhile (\<lambda>c. \<not> is_line_terminator c) s) \<le> length s"
    by (rule length_dropWhile_le)
  ultimately show "(xb, s) \<in> measure length" by simp
qed

definition partial_keys :: "string \<Rightarrow> string list" where
  "partial_keys jsonID = filter (\<lambda>k. k \<noteq> []) (split_on CHR ''/'' (partial_text jsonID))"

text \<open>
  Modelled from the spec: the \<open>subpath\<close> of \<open>parseRef\<close> of
  \<open>@terrazzo/json-schema-tools\<close>, which is not among the sources. The specification
  strips the leading \<open>#/\<close> and splits at \<open>/\<close>; a pointer without segments has no
  subpath. \<open>refToTokenID\<close> joins the segments with dots, cuts \<open>.$value\<close> with all that
  follows it (\<open>/\.\$value.*$/\<close>), and returns \<open>undefined\<close> for an empty result.
\<close>

definition parseRef_subpath :: "string \<Rightarrow> string list option" where
  "parseRef_subpath ref =
     (let segments =
            filter (\<lambda>k. k \<noteq> [])
              (split_on CHR ''/'' (if prefix ''#/'' ref then drop 2 ref else ref))
      in if segments = [] then None else Some segments)"

fun strip_dot_value :: "string \<Rightarrow> string" where
  "strip_dot_value [] = []"
| "strip_dot_value (c # cs) =
     (if prefix ''.$value'' (c # cs) \<and> \<not> list_ex is_line_terminator (c # cs) then []
      else c # strip_dot_value cs)"

definition refToTokenID :: "string \<Rightarrow> string option" where
  "refToTokenID ref =
     (case parseRef_subpath ref of
        None \<Rightarrow> None
      | Some subpath \<Rightarrow>
          (let i = strip_dot_value (join ''.'' subpath)
           in if i = [] then None else Some i))"

text \<open>
  \<open>Array.prototype.sort\<close> moves \<open>undefined\<close> elements to the end without comparing them.
\<close>

definition sort_undefined_last ::
  "(string \<Rightarrow> string \<Rightarrow> bool) \<Rightarrow> string option list \<Rightarrow> string option list" where
  "sort_undefined_last le xs =
     map Some (sort_by le (concat (map (\<lambda>x. case x of None \<Rightarrow> [] | Some s \<Rightarrow> [s]) xs)))
     @ filter (\<lambda>x. x = None) xs"

text \<open>
  The steps of the loop body of \<open>graphAliases\<close> for one entry of the map. The first two
  write \<open>dependencies\<close>, \<open>aliasOf\<close> and \<open>aliasChain\<close> of \<open>tokens[rootRef]\<close>, the fields of
  the token itself, in every mode.
\<close>

definition link_dependencies ::
  "(string \<Rightarrow> string \<Rightarrow> bool) \<Rightarrow> string \<Rightarrow> string list \<Rightarrow> tokens \<Rightarrow> tokens" where
  "link_dependencies le rootRef refChain toks =
     update_own rootRef
       (\<lambda>t. let deps = (case dependencies_t t of None \<Rightarrow> [] | Some d \<Rightarrow> d)
            in t\<lparr>dependencies_t :=
                   Some (sort_by le (deps @ filter (\<lambda>r. r \<notin> set deps) refChain))\<rparr>)
       toks"

definition link_top :: "string \<Rightarrow> string \<Rightarrow> string list \<Rightarrow> tokens \<Rightarrow> tokens" where
  "link_top jsonID rootRef refChain toks =
     (if ends_with jsonID ''/$value'' \<or> map_of toks jsonID \<noteq> None
      then update_own rootRef
             (\<lambda>t. t\<lparr>aliasOf_t := refToTokenID (last refChain),
                    aliasChain_t := Some (map refToTokenID refChain)\<rparr>)
             toks
      else toks)"

text \<open>
  The partial alias. One round of the loop first moves \<open>node\<close> and \<open>sourceNode\<close> down by
  the key: \<open>key in node\<close> raises on a value that is no object, \<open>sourceNode.type\<close> raises
  on \<open>undefined\<close>. \<open>numeric key\<close> is the test \<open>String(Number(key)) === key\<close> of the
  platform; a key turned into a number names no member for \<open>getObjMember\<close>. The
  structure \<open>partialAliasOf\<close> is the one of the token itself, \<open>tokens[rootRef].partialAliasOf\<close>:
  a write through it raises when it is \<open>undefined\<close> or a string.
\<close>

definition descend ::
  "(string \<Rightarrow> bool) \<Rightarrow> string \<Rightarrow> json \<Rightarrow> node option \<Rightarrow> exn + (json \<times> node option)" where
  "descend numeric key nd src =
     (case nd of
        JObj ms \<Rightarrow>
          if get_prop nd key = JUndefined then Inr (nd, src)
          else
            (case src of
               None \<Rightarrow> Inl TypeError
             | Some (JObj members) \<Rightarrow>
                 Inr (get_prop nd key, (if numeric key then None else map_of members key))
             | Some (JArr elements) \<Rightarrow>
                 if is_index key \<and> digits_value key < length elements
                 then Inr (get_prop nd key, Some (elements ! digits_value key))
                 else Inl TypeError
             | Some other \<Rightarrow> Inr (get_prop nd key, src))
      | JArr xs \<Rightarrow>
          if get_prop nd key = JUndefined then Inr (nd, src)
          else
            (case src of
               None \<Rightarrow> Inl TypeError
             | Some (JObj members) \<Rightarrow>
                 Inr (get_prop nd key, (if numeric key then None else map_of members key))
             | Some (JArr elements) \<Rightarrow>
                 if is_index key \<and> digits_value key < length elements
                 then Inr (get_prop nd key, Some (elements ! digits_value key))
                 else Inl TypeError
             | Some other \<Rightarrow> Inr (get_prop nd key, src))
      | _ \<Rightarrow> Inl TypeError)"

definition palias_members :: "palias \<Rightarrow> (string \<times> palias) list option" where
  "palias_members pa = (case pa of PArr ms \<Rightarrow> Some ms | PObj ms \<Rightarrow> Some ms | _ \<Rightarrow> None)"

definition palias_with :: "palias \<Rightarrow> (string \<times> palias) list \<Rightarrow> palias" where
  "palias_with pa ms = (case pa of PArr old \<Rightarrow> PArr ms | PObj old \<Rightarrow> PObj ms | _ \<Rightarrow> pa)"

definition palias_leaf :: "string option \<Rightarrow> palias" where
  "palias_leaf i = (case i of None \<Rightarrow> PUndefined | Some s \<Rightarrow> PStr s)"

definition palias_empty :: "json \<Rightarrow> palias" where
  "palias_empty v = (case v of JArr xs \<Rightarrow> PArr [] | _ \<Rightarrow> PObj [])"

fun partial_loop ::
  "bool \<Rightarrow> (string \<Rightarrow> bool) \<Rightarrow> tokens \<Rightarrow> string list \<Rightarrow> string list \<Rightarrow> json \<Rightarrow> node option
     \<Rightarrow> palias \<Rightarrow> message list \<Rightarrow> exn option \<times> palias \<times> message list" where
  "partial_loop throws numeric toks refChain [] nd src pa diag = (None, pa, diag)"
| "partial_loop throws numeric toks refChain (key # rest) nd src pa diag =
     (case descend numeric key nd src of
        Inl e \<Rightarrow> (Some e, pa, diag)
      | Inr (nd1, src1) \<Rightarrow>
          if rest = [] then
            (let aliasedID = getTokenRef (last refChain)
             in if map_of toks aliasedID = None
                then ((if throws then Some (LoggerError (InvalidAlias aliasedID)) else None),
                      pa, diag @ [InvalidAlias aliasedID])
                else
                  (case palias_members pa of
                     None \<Rightarrow> (Some TypeError, pa, diag)
                   | Some ms \<Rightarrow>
                       (None, palias_with pa (set_own key (palias_leaf (refToTokenID aliasedID)) ms),
                        diag)))
          else
            (case palias_members pa of
               None \<Rightarrow> (Some TypeError, pa, diag)
             | Some ms \<Rightarrow>
                 (case partial_loop throws numeric toks refChain rest nd1 src1
                         (case map_of ms key of None \<Rightarrow> palias_empty nd1 | Some child \<Rightarrow> child)
                         diag of
                    (e, child1, diag1) \<Rightarrow> (e, palias_with pa (set_own key child1 ms), diag1))))"

definition palias_truthy :: "palias \<Rightarrow> bool" where
  "palias_truthy pa = (case pa of PUndefined \<Rightarrow> False | PStr s \<Rightarrow> s \<noteq> [] | _ \<Rightarrow> True)"

definition is_object_value :: "json \<Rightarrow> bool" where
  "is_object_value v = (case v of JArr xs \<Rightarrow> True | JObj ms \<Rightarrow> True | _ \<Rightarrow> False)"

definition link_partial ::
  "bool \<Rightarrow> (string \<Rightarrow> bool) \<Rightarrow> string \<Rightarrow> string \<Rightarrow> string \<Rightarrow> string list \<Rightarrow> rstate
     \<Rightarrow> exn option \<times> rstate" where
  "link_partial throws numeric mode jsonID rootRef refChain st =
     (case map_of (tokens_s st) rootRef of
        None \<Rightarrow> (None, st)
      | Some t \<Rightarrow>
          (case map_of (mode_t t) mode of
             None \<Rightarrow> (None, st)
           | Some ms \<Rightarrow>
               if partial_keys jsonID = [] \<or> \<not> is_object_value (value_m ms) then (None, st)
               else
                 (let ms1 = (if palias_truthy (partialAliasOf_m ms) then ms
                             else ms\<lparr>partialAliasOf_m :=
                                      (case value_t t of JArr xs \<Rightarrow> PArr [] | _ \<Rightarrow> PObj [])\<rparr>)
                  in case partial_loop throws numeric (tokens_s st) refChain (partial_keys jsonID)
                            (value_m ms) (getObjMember (source_node_m ms) ''$value'')
                            (partialAliasOf_t t) (diag_s st) of
                       (e, pa, diag) \<Rightarrow>
                         (e, st\<lparr>tokens_s :=
                                  update_own rootRef
                                    (\<lambda>t. t\<lparr>partialAliasOf_t := pa,
                                           mode_t := update_own mode (\<lambda>m. ms1) (mode_t t)\<rparr>)
                                    (tokens_s st),
                                diag_s := diag\<rparr>))))"

text \<open>The reverse links, from the chain reversed, into \<open>aliasedBy\<close> of the token itself.\<close>

fun add_aliasedBy ::
  "(string \<Rightarrow> string \<Rightarrow> bool) \<Rightarrow> string list \<Rightarrow> string option list \<Rightarrow> string option list" where
  "add_aliasedBy le [] acc = acc"
| "add_aliasedBy le (u # upstream) acc =
     add_aliasedBy le upstream
       (if refToTokenID u \<in> set acc then acc
        else sort_undefined_last le (acc @ [refToTokenID u]))"

fun link_aliasedBy :: "(string \<Rightarrow> string \<Rightarrow> bool) \<Rightarrow> string list \<Rightarrow> tokens \<Rightarrow> tokens" where
  "link_aliasedBy le [] toks = toks"
| "link_aliasedBy le (r # upstream) toks =
     (if map_of toks (getTokenRef r) = None then link_aliasedBy le upstream toks
      else if upstream = [] then toks
      else link_aliasedBy le upstream
             (update_own (getTokenRef r)
                (\<lambda>t. t\<lparr>aliasedBy_t :=
                        Some (add_aliasedBy le upstream
                                (case aliasedBy_t t of None \<Rightarrow> [] | Some a \<Rightarrow> a))\<rparr>)
                toks))"

text \<open>
  The promotion at the end of the loop body, for mode \<open>.\<close>: the fields of
  \<open>tokens[jsonID].mode['.']\<close> are copied over those of \<open>tokens[jsonID]\<close>, where \<open>jsonID\<close> is
  the key of the entry in the map; a missing token raises.
\<close>

definition promote_root :: "string \<Rightarrow> string \<Rightarrow> tokens \<Rightarrow> exn + tokens" where
  "promote_root mode jsonID toks =
     (if mode \<noteq> ''.'' then Inr toks
      else
        (case map_of toks jsonID of
           None \<Rightarrow> Inl TypeError
         | Some t \<Rightarrow>
             (case map_of (mode_t t) mode of
                None \<Rightarrow> Inl TypeError
              | Some ms \<Rightarrow>
                  Inr (update_own jsonID
                         (\<lambda>t. t\<lparr>aliasChain_t := aliasChain_m ms,
                                aliasedBy_t := aliasedBy_m ms,
                                aliasOf_t := aliasOf_m ms,
                                dependencies_t := dependencies_m ms,
                                partialAliasOf_t := partialAliasOf_m ms\<rparr>)
                         toks))))"

text \<open>
  The loop body, the loops over the entries and the modes, and \<open>graphAliases\<close>.
\<close>

definition link_entry ::
  "(string \<Rightarrow> string \<Rightarrow> bool) \<Rightarrow> bool \<Rightarrow> (string \<Rightarrow> bool) \<Rightarrow> string \<Rightarrow> string \<Rightarrow> string list
     \<Rightarrow> rstate \<Rightarrow> exn option \<times> rstate" where
  "link_entry le throws numeric mode jsonID refChain st =
     (if refChain = [] then (None, st)
      else
        (let rootRef = getTokenRef jsonID;
             toks1 = link_dependencies le rootRef refChain (tokens_s st);
             toks2 = link_top jsonID rootRef refChain toks1
         in case link_partial throws numeric mode jsonID rootRef refChain
                   (st\<lparr>tokens_s := toks2\<rparr>) of
              (Some e, st1) \<Rightarrow> (Some e, st1)
            | (None, st1) \<Rightarrow>
                (let toks3 = link_aliasedBy le (rev (jsonID # refChain)) (tokens_s st1)
                 in case promote_root mode jsonID toks3 of
                      Inl e \<Rightarrow> (Some e, st1\<lparr>tokens_s := toks3\<rparr>)
                    | Inr toks4 \<Rightarrow> (None, st1\<lparr>tokens_s := toks4\<rparr>))))"

fun link_entries ::
  "(string \<Rightarrow> string \<Rightarrow> bool) \<Rightarrow> bool \<Rightarrow> (string \<Rightarrow> bool) \<Rightarrow> string \<Rightarrow> (string \<times> RefMapEntry) list
     \<Rightarrow> rstate \<Rightarrow> exn option \<times> rstate" where
  "link_entries le throws numeric mode [] st = (None, st)"
| "link_entries le throws numeric mode ((jsonID, entry) # rest) st =
     (case link_entry le throws numeric mode jsonID (refChain_r entry) st of
        (Some e, st1) \<Rightarrow> (Some e, st1)
      | (None, st1) \<Rightarrow> link_entries le throws numeric mode rest st1)"

fun link_modes ::
  "(string \<Rightarrow> string \<Rightarrow> bool) \<Rightarrow> bool \<Rightarrow> (string \<Rightarrow> bool) \<Rightarrow> string list \<Rightarrow> rstate
     \<Rightarrow> exn option \<times> rstate" where
  "link_modes le throws numeric [] st = (None, st)"
| "link_modes le throws numeric (mode # rest) st =
     (let refMap = (case map_of (modeRefMap_s st) mode of Some (Some m) \<Rightarrow> m | _ \<Rightarrow> []);
          st0 = st\<lparr>modeRefMap_s := set_own mode (Some refMap) (modeRefMap_s st)\<rparr>
      in case link_entries le throws numeric mode (js_order refMap) st0 of
           (Some e, st1) \<Rightarrow> (Some e, st1)
         | (None, st1) \<Rightarrow> link_modes le throws numeric rest st1)"

definition graphAliases ::
  "(string \<Rightarrow> string \<Rightarrow> bool) \<Rightarrow> bool \<Rightarrow> (string \<Rightarrow> bool) \<Rightarrow> ModeRefMap \<Rightarrow> tokens
     \<Rightarrow> exn option \<times> rstate" where
  "graphAliases le throws numeric modeRefMap toks =
     link_modes le throws numeric (own_keys modeRefMap)
       \<lparr>tokens_s = toks, modeRefMap_s = modeRefMap, diag_s = []\<rparr>"

text \<open>
  The alias fields of a token and of one of its modes: \<open>aliasOf\<close>, \<open>aliasChain\<close>,
  \<open>aliasedBy\<close>, \<open>dependencies\<close> and \<open>partialAliasOf\<close>, in this order.
\<close>

definition alias_fields_t ::
  "token \<Rightarrow> string option \<times> string option list option \<times> string option list option
     \<times> string list option \<times> palias" where
  "alias_fields_t t =
     (aliasOf_t t, aliasChain_t t, aliasedBy_t t, dependencies_t t, partialAliasOf_t t)"

definition alias_fields_m ::
  "mode_state \<Rightarrow> string option \<times> string option list option \<times> string option list option
     \<times> string list option \<times> palias" where
  "alias_fields_m ms =
     (aliasOf_m ms, aliasChain_m ms, aliasedBy_m ms, dependencies_m ms, partialAliasOf_m ms)"

definition root_fields ::
  "tokens \<Rightarrow> string
     \<Rightarrow> (string option \<times> string option list option \<times> string option list option
          \<times> string list option \<times> palias) option" where
  "root_fields toks key = map_option alias_fields_t (map_of toks key)"

definition mode_fields ::
  "tokens \<Rightarrow> string \<Rightarrow> string
     \<Rightarrow> (string option \<times> string option list option \<times> string option list option
          \<times> string list option \<times> palias) option" where
  "mode_fields toks key mode =
     (case map_of toks key of
        None \<Rightarrow> None
      | Some t \<Rightarrow> map_option alias_fields_m (map_of (mode_t t) mode))"

section \<open>Example documents\<close>

text \<open>A group with the given \<open>$type\<close> and nothing else, and the group \<open>color\<close>.\<close>

definition mk_group :: "string \<Rightarrow> json \<Rightarrow> group" where
  "mk_group i ty =
     \<lparr>id_g = i, deprecated_g = JUndefined, description_g = JUndefined,
      extensions_g = JUndefined, type_g = ty, tokens_g = []\<rparr>"

definition ex_color_group :: group where
  "ex_color_group =
     \<lparr>id_g = ''color'', deprecated_g = JBool True, description_g = JUndefined,
      extensions_g = JUndefined, type_g = JStr ''color'', tokens_g = []\<rparr>"

text \<open>
  The walk of \<open>{"a": {"$type": "color", "g": {"$type": null, "c": {}}}}\<close>: the groups
  \<open>a\<close>, \<open>a.g\<close> and \<open>a.g.c\<close>, each indexed before its descendants.
\<close>

definition ex_null_walk :: groups where
  "ex_null_walk =
     groupFromNode [] [''a'', ''g'', ''c'']
       (groupFromNode [(''$type'', JNull), (''c'', JObj [])] [''a'', ''g'']
          (groupFromNode
             [(''$type'', JStr ''color''), (''g'', JObj [(''$type'', JNull), (''c'', JObj [])])]
             [''a''] []))"

text \<open>
  The walk of \<open>{"x": {"a": {"$type": "color"}, "ab": {}}}\<close>: the groups \<open>x\<close>, \<open>x.a\<close>
  and \<open>x.ab\<close>.
\<close>

definition ex_sibling_walk :: groups where
  "ex_sibling_walk =
     groupFromNode [] [''x'', ''ab'']
       (groupFromNode [(''$type'', JStr ''color'')] [''x'', ''a'']
          (groupFromNode [(''a'', JObj [(''$type'', JStr ''color'')]), (''ab'', JObj [])]
             [''x''] []))"

text \<open>
  A token as \<open>tokenFromNode\<close> assembles it from the node
  \<open>{"$value": v, "$type": ty, "$extensions": {"mode": modes}}\<close> at \<open>path\<close> (the last two
  members only when \<open>ty\<close> is defined and \<open>modes\<close> is not empty), with the \<open>originalValue\<close>
  of each mode as \<open>tokenRawValuesFromNode\<close> reads it from the document.
\<close>

definition ex_mode :: "json \<Rightarrow> node option \<Rightarrow> mode_state" where
  "ex_mode v src = (new_mode v src)\<lparr>originalValue_m := v\<rparr>"

definition ex_token :: "string list \<Rightarrow> json \<Rightarrow> json \<Rightarrow> (string \<times> json) list \<Rightarrow> token" where
  "ex_token path ty v modes =
     \<lparr>id_t = join ''.'' path, type_t = ty, description_t = JUndefined,
      deprecated_t = JUndefined, value_t = v,
      extensions_t = (if modes = [] then JUndefined else JObj [(''mode'', JObj modes)]),
      aliasChain_t = None, aliasedBy_t = None, aliasOf_t = None,
      partialAliasOf_t = PUndefined, dependencies_t = None, group_t = None,
      originalValue_t = JUndefined, source_filename_t = Some ''tokens.json'',
      source_node_t =
        JObj ([(''$value'', v)] @ (if ty = JUndefined then [] else [(''$type'', ty)])
              @ (if modes = [] then [] else [(''$extensions'', JObj [(''mode'', JObj modes)])])),
      jsonID_t = path_jsonID path,
      mode_t = (''.'', ex_mode v (Some v)) # map (\<lambda>(m, w). (m, ex_mode w (Some w))) modes\<rparr>"

text \<open>The document \<open>{"a": {"$value": "{b}"}, "b": {"$value": "{a}"}}\<close>.\<close>

definition ex_cycle :: tokens where
  "ex_cycle =
     [(''#/a'', ex_token [''a''] JUndefined (JStr ''{b}'') []),
      (''#/b'', ex_token [''b''] JUndefined (JStr ''{a}'') [])]"

text \<open>
  The document \<open>{"a": {"$value": "{missing}"}, "b": {"$value": "{c}"},
  "c": {"$value": "#fff"}}\<close>.
\<close>

definition ex_missing :: tokens where
  "ex_missing =
     [(''#/a'', ex_token [''a''] JUndefined (JStr ''{missing}'') []),
      (''#/b'', ex_token [''b''] JUndefined (JStr ''{c}'') []),
      (''#/c'', ex_token [''c''] JUndefined (JStr ''#fff'') [])]"

text \<open>
  The document \<open>{"x": {"$value": "5px", "$type": "dimension"},
  "y": {"$value": "{x}", "$type": "color"}}\<close>.
\<close>

definition ex_mismatch :: tokens where
  "ex_mismatch =
     [(''#/x'', ex_token [''x''] (JStr ''dimension'') (JStr ''5px'') []),
      (''#/y'', ex_token [''y''] (JStr ''color'') (JStr ''{x}'') [])]"

text \<open>
  The document \<open>{"flag": {"$value": true, "$type": "boolean", "$extensions": {"mode":
  {"dark": false}}}, "ref": {"$value": "{flag}", "$type": "boolean", "$extensions":
  {"mode": {"dark": "{flag}"}}}}\<close>.
\<close>

definition ex_falsy :: tokens where
  "ex_falsy =
     [(''#/flag'', ex_token [''flag''] (JStr ''boolean'') (JBool True) [(''dark'', JBool False)]),
      (''#/ref'', ex_token [''ref''] (JStr ''boolean'') (JStr ''{flag}'')
                    [(''dark'', JStr ''{flag}'')])]"

text \<open>
  The document \<open>{"color": {"red": {"$value": "#ff0000", "$type": "color"}},
  "shadow1": {"$value": {"color": "{color.red}", "offsetX": "2px", "offsetY": "2px",
  "blur": "4px", "spread": "0", "inset": false}, "$type": "shadow"}}\<close>.
\<close>

definition ex_shadow_value :: json where
  "ex_shadow_value =
     JObj [(''color'', JStr ''{color.red}''), (''offsetX'', JStr ''2px''),
           (''offsetY'', JStr ''2px''), (''blur'', JStr ''4px''), (''spread'', JStr ''0''),
           (''inset'', JBool False)]"

definition ex_shadow :: tokens where
  "ex_shadow =
     [(''#/color/red'', ex_token [''color'', ''red''] (JStr ''color'') (JStr ''#ff0000'') []),
      (''#/shadow1'', ex_token [''shadow1''] (JStr ''shadow'') ex_shadow_value [])]"

text \<open>
  The document \<open>{"a": {"$value": "{b}", "$extensions": {"mode": {"dark": "{b}"}}},
  "b": {"$value": "#fff", "$extensions": {"mode": {"dark": "#000"}}}}\<close>.
\<close>

definition ex_modes :: tokens where
  "ex_modes =
     [(''#/a'', ex_token [''a''] JUndefined (JStr ''{b}'') [(''dark'', JStr ''{b}'')]),
      (''#/b'', ex_token [''b''] JUndefined (JStr ''#fff'') [(''dark'', JStr ''#000'')])]"

text \<open>
  The document \<open>{"a": {"$value": "#111", "$extensions": {"mode": {"dark": "{b}"}}},
  "b": {"$value": "#fff", "$extensions": {"mode": {"dark": "#000"}}}}\<close>.
\<close>

definition ex_dark_alias :: tokens where
  "ex_dark_alias =
     [(''#/a'', ex_token [''a''] JUndefined (JStr ''#111'') [(''dark'', JStr ''{b}'')]),
      (''#/b'', ex_token [''b''] JUndefined (JStr ''#fff'') [(''dark'', JStr ''#000'')])]"

section \<open>Properties of the normalizer\<close>

subsection \<open>Objects and sorting\<close>

lemma map_of_set_own: "map_of (set_own k v ms) k' = (if k' = k then Some v else map_of ms k')"
  by (induction ms) auto

lemma set_insert_by: "set (insert_by le x xs) = insert x (set xs)"
  by (induction xs) auto

lemma set_sort_by: "set (sort_by le xs) = set xs"
  unfolding sort_by_def by (induction xs) (auto simp: set_insert_by)

subsection \<open>The token normalizer\<close>

lemma register_token_lookup:
  "map_of gs groupID = Some g \<Longrightarrow>
   \<exists>g'. map_of (register_token le i groupID gs) groupID = Some g'
        \<and> i \<in> set (tokens_g g') \<and> deprecated_g g' = deprecated_g g \<and> type_g g' = type_g g"
  by (auto simp: register_token_def map_of_set_own set_sort_by)

lemma assemble_token_deprecated:
  "deprecated_t (assemble_token nd path filename groupID grp) =
     coalesce
       (if nullish (get_prop (evaluate nd) ''$deprecated'')
        then (case grp of None \<Rightarrow> JUndefined | Some g \<Rightarrow> deprecated_g g)
        else get_prop (evaluate nd) ''$deprecated'')
       JUndefined"
  by (simp add: assemble_token_def Let_def)

lemma assemble_token_id:
  "id_t (assemble_token nd path filename groupID grp) = join ''.'' path"
  by (simp add: assemble_token_def Let_def)

lemma expand_modes_deprecated:
  "expand_modes nd t = Inr t' \<Longrightarrow> deprecated_t t' = deprecated_t t"
  by (auto simp: expand_modes_def split: option.splits if_splits)

lemma expand_modes_error:
  "expand_modes nd t = Inl e \<Longrightarrow> e = TypeError \<and> getObjMember (Some nd) ''$extensions'' \<noteq> None"
  by (auto simp: expand_modes_def split: option.splits if_splits)

text \<open>
  Claim C9. A token node whose own \<open>$deprecated\<close> is \<open>false\<close>, in a group of the index
  (whatever the group's cascaded \<open>$deprecated\<close>, \<open>true\<close> included): whenever
  \<open>tokenFromNode\<close> returns a token, its \<open>$deprecated\<close> is \<open>false\<close>, kept and not turned
  into \<open>undefined\<close>. The function returns \<open>undefined\<close> only when a pattern of
  \<open>ignore.tokens\<close> matches the id (never through \<open>ignore.deprecated\<close>), and raises only
  a \<open>TypeError\<close> of the \<open>$extensions\<close> part.
\<close>

theorem tokenFromNode_explicit_false_retained:
  assumes "isToken nd path"
    and "get_prop (evaluate nd) ''$deprecated'' = JBool False"
    and "map_of gs (path_jsonID (butlast path)) = Some g"
  shows "(case fst (tokenFromNode le wcmatch nd gs path filename ignore) of
            Inr (Some t) \<Rightarrow> deprecated_t t = JBool False
          | Inr None \<Rightarrow>
              (\<exists>ig pats. ignore = Some ig \<and> tokens_i ig = Some pats
                 \<and> wcmatch pats (join ''.'' path))
          | Inl e \<Rightarrow> e = TypeError \<and> getObjMember (Some nd) ''$extensions'' \<noteq> None)"
proof -
  let ?gid = "path_jsonID (butlast path)"
  let ?gs1 = "register_token le (join ''.'' path) ?gid gs"
  obtain g' where g': "map_of ?gs1 ?gid = Some g'"
    using register_token_lookup[OF assms(3)] by blast
  let ?t = "assemble_token nd path filename ?gid (Some g')"
  have dep: "deprecated_t ?t = JBool False"
    using assms(2) by (simp add: assemble_token_deprecated coalesce_def)
  have eq: "tokenFromNode le wcmatch nd gs path filename ignore =
      (if ignored wcmatch ignore ?t then (Inr None, ?gs1)
       else (case expand_modes nd ?t of
               Inl e \<Rightarrow> (Inl e, ?gs1)
             | Inr t' \<Rightarrow> (Inr (Some t'), ?gs1)))"
    using assms(1) g' by (simp add: tokenFromNode_def Let_def)
  show ?thesis
  proof (cases "ignored wcmatch ignore ?t")
    case True
    then have "\<exists>ig pats. ignore = Some ig \<and> tokens_i ig = Some pats
        \<and> wcmatch pats (join ''.'' path)"
      using dep by (auto simp: ignored_def assemble_token_id split: option.splits)
    then show ?thesis using True eq by simp
  next
    case False
    show ?thesis
    proof (cases "expand_modes nd ?t")
      case (Inl e)
      then show ?thesis using False eq expand_modes_error[OF Inl] by simp
    next
      case (Inr t')
      then show ?thesis using False eq expand_modes_deprecated[OF Inr] dep by simp
    qed
  qed
qed

text \<open>
  The token \<open>color.red\<close> with \<open>$deprecated: false\<close> in the group \<open>color\<close>, whose
  \<open>$deprecated\<close> is \<open>true\<close>, with \<open>ignore.deprecated\<close> set: the token comes back, not
  deprecated.
\<close>

theorem tokenFromNode_explicit_false_retained_witness:
  "\<forall>le wcmatch.
     (\<exists>t. fst (tokenFromNode le wcmatch
              (JObj [(''$value'', JStr ''#ff0000''), (''$deprecated'', JBool False)])
              [(''#/color'', ex_color_group)] [''color'', ''red''] None
              (Some \<lparr>tokens_i = None, deprecated_i = True\<rparr>)) = Inr (Some t)
          \<and> deprecated_t t = JBool False)"
proof (intro allI)
  fix le :: "string \<Rightarrow> string \<Rightarrow> bool" and wcmatch :: "string list \<Rightarrow> string \<Rightarrow> bool"
  let ?nd = "JObj [(''$value'', JStr ''#ff0000''), (''$deprecated'', JBool False)]"
  let ?gs = "[(''#/color'', ex_color_group)]"
  let ?ig = "Some \<lparr>tokens_i = None, deprecated_i = True\<rparr>"
  have 1: "isToken ?nd [''color'', ''red'']" by (simp add: isToken_def)
  have 2: "get_prop (evaluate ?nd) ''$deprecated'' = JBool False" by simp
  have 3: "map_of ?gs (path_jsonID (butlast [''color'', ''red''])) = Some ex_color_group"
    by (simp add: path_jsonID_def)
  have 4: "getObjMember (Some ?nd) ''$extensions'' = None" by simp
  show "\<exists>t. fst (tokenFromNode le wcmatch ?nd ?gs [''color'', ''red''] None ?ig) = Inr (Some t)
          \<and> deprecated_t t = JBool False"
    using tokenFromNode_explicit_false_retained
            [where le=le and wcmatch=wcmatch and filename=None and ignore="?ig", OF 1 2 3] 4
    by (cases "fst (tokenFromNode le wcmatch ?nd ?gs [''color'', ''red''] None ?ig)")
       (auto split: option.splits)
qed

text \<open>
  Claim C10. A token node in a group of the index that the ignore configuration drops
  (\<open>ignore.deprecated\<close> with a truthy resolved \<open>$deprecated\<close>, or a pattern of
  \<open>ignore.tokens\<close> matching the id): \<open>tokenFromNode\<close> returns \<open>undefined\<close>, so no token
  and no mode entry, and the group's \<open>tokens\<close> list in the index it leaves behind holds
  the id of the dropped token.
\<close>

theorem tokenFromNode_dropped_token_registered:
  assumes "isToken nd path"
    and "map_of gs (path_jsonID (butlast path)) = Some g"
    and "ignore = Some ig"
    and "(deprecated_i ig \<and>
           truthy (coalesce (if nullish (get_prop (evaluate nd) ''$deprecated'')
                             then deprecated_g g
                             else get_prop (evaluate nd) ''$deprecated'') JUndefined))
         \<or> (\<exists>pats. tokens_i ig = Some pats \<and> wcmatch pats (join ''.'' path))"
  shows "fst (tokenFromNode le wcmatch nd gs path filename ignore) = Inr None
       \<and> (\<exists>g'. map_of (snd (tokenFromNode le wcmatch nd gs path filename ignore))
                  (path_jsonID (butlast path)) = Some g'
              \<and> join ''.'' path \<in> set (tokens_g g'))"
proof -
  let ?gid = "path_jsonID (butlast path)"
  let ?gs1 = "register_token le (join ''.'' path) ?gid gs"
  obtain g' where g': "map_of ?gs1 ?gid = Some g'"
     "join ''.'' path \<in> set (tokens_g g')" "deprecated_g g' = deprecated_g g"
    using register_token_lookup[OF assms(2)] by blast
  have ig: "ignored wcmatch ignore (assemble_token nd path filename ?gid (Some g'))"
    using assms(3,4) g'(3)
    by (auto simp: ignored_def assemble_token_deprecated assemble_token_id)
  have "tokenFromNode le wcmatch nd gs path filename ignore = (Inr None, ?gs1)"
    using assms(1) g'(1) ig by (simp add: tokenFromNode_def Let_def)
  then show ?thesis using g' by simp
qed

text \<open>
  The token \<open>color.red\<close> without a \<open>$deprecated\<close> of its own inherits \<open>true\<close> from the
  group \<open>color\<close> and is dropped by \<open>ignore.deprecated\<close>; the group lists it all the same.
\<close>

theorem tokenFromNode_dropped_token_registered_witness:
  "\<forall>le wcmatch.
     fst (tokenFromNode le wcmatch (JObj [(''$value'', JStr ''#ff0000'')])
            [(''#/color'', ex_color_group)] [''color'', ''red''] None
            (Some \<lparr>tokens_i = None, deprecated_i = True\<rparr>)) = Inr None
     \<and> (\<exists>g'. map_of (snd (tokenFromNode le wcmatch (JObj [(''$value'', JStr ''#ff0000'')])
                          [(''#/color'', ex_color_group)] [''color'', ''red''] None
                          (Some \<lparr>tokens_i = None, deprecated_i = True\<rparr>))) ''#/color'' = Some g'
            \<and> ''color.red'' \<in> set (tokens_g g'))"
proof (intro allI)
  fix le :: "string \<Rightarrow> string \<Rightarrow> bool" and wcmatch :: "string list \<Rightarrow> string \<Rightarrow> bool"
  let ?nd = "JObj [(''$value'', JStr ''#ff0000'')]"
  let ?gs = "[(''#/color'', ex_color_group)]"
  let ?ig = "\<lparr>tokens_i = None, deprecated_i = True\<rparr>"
  have 1: "isToken ?nd [''color'', ''red'']" by (simp add: isToken_def)
  have 3: "map_of ?gs (path_jsonID (butlast [''color'', ''red''])) = Some ex_color_group"
    by (simp add: path_jsonID_def)
  have 4: "(deprecated_i ?ig \<and>
           truthy (coalesce (if nullish (get_prop (evaluate ?nd) ''$deprecated'')
                             then deprecated_g ex_color_group
                             else get_prop (evaluate ?nd) ''$deprecated'') JUndefined))
         \<or> (\<exists>pats. tokens_i ?ig = Some pats \<and> wcmatch pats (join ''.'' [''color'', ''red'']))"
    by (simp add: coalesce_def ex_color_group_def)
  show "fst (tokenFromNode le wcmatch ?nd ?gs [''color'', ''red''] None (Some ?ig)) = Inr None
     \<and> (\<exists>g'. map_of (snd (tokenFromNode le wcmatch ?nd ?gs [''color'', ''red''] None (Some ?ig)))
                  ''#/color'' = Some g'
            \<and> ''color.red'' \<in> set (tokens_g g'))"
    using tokenFromNode_dropped_token_registered
            [where nd="?nd" and path="[''color'', ''red'']" and gs="?gs" and g=ex_color_group
               and ignore="Some ?ig" and ig="?ig" and wcmatch=wcmatch and le=le and filename=None,
             OF 1 3 refl 4]
    by (simp add: path_jsonID_def)
qed

subsection \<open>The group indexer\<close>

lemma set_own_keys: "set (own_keys ms) = fst ` set ms"
  by (auto simp: own_keys_def)

lemma cascade_from_prop:
  "k \<in> {''$deprecated'', ''$description'', ''$type''} \<Longrightarrow>
   group_prop k (cascade_from (Some q) g) = coalesce (group_prop k q) (group_prop k g)"
  by (auto simp: cascade_from_def group_prop_def)

text \<open>
  The cascade loop leaves in a cascading property the value of the last group of the
  list that is a proper string prefix and has the property, and the old value when
  there is none.
\<close>

lemma cascade_prop:
  assumes "k \<in> {''$deprecated'', ''$description'', ''$type''}"
      and "\<forall>i\<in>set ids. map_of gs i \<noteq> None"
  shows "group_prop k (cascade gs j ids g) =
     (case filter (\<lambda>i. isParentGroup j i \<and> \<not> nullish (group_prop k (the (map_of gs i)))) ids of
        [] \<Rightarrow> group_prop k g
      | i # is \<Rightarrow> group_prop k (the (map_of gs (last (i # is)))))"
  using assms(2)
proof (induction ids arbitrary: g)
  case Nil
  then show ?case by simp
next
  case (Cons i ids)
  from Cons.prems obtain q where q: "map_of gs i = Some q" by auto
  have IH: "\<And>g. group_prop k (cascade gs j ids g) =
     (case filter (\<lambda>i. isParentGroup j i \<and> \<not> nullish (group_prop k (the (map_of gs i)))) ids of
        [] \<Rightarrow> group_prop k g
      | i # is \<Rightarrow> group_prop k (the (map_of gs (last (i # is)))))"
    using Cons.IH Cons.prems by simp
  show ?case
    using q cascade_from_prop[OF assms(1)]
    by (simp add: IH coalesce_def split: list.splits)
qed

lemma group_prop_set_group_prop:
  "k \<in> set GROUP_PROPERTIES \<Longrightarrow>
   group_prop k (if k' \<in> set GROUP_PROPERTIES then set_group_prop k' x g else g) =
     (if k' = k then x else group_prop k g)"
  unfolding GROUP_PROPERTIES_def set_group_prop_def group_prop_def
  by (cases "k' = k") auto

lemma local_override_prop:
  "k \<in> set GROUP_PROPERTIES \<Longrightarrow>
   group_prop k (local_override ms g) =
     (case local_decl k ms of Some v \<Rightarrow> v | None \<Rightarrow> group_prop k g)"
proof (induction ms arbitrary: g)
  case Nil
  then show ?case by simp
next
  case (Cons m ms)
  obtain k' v where m: "m = (k', v)" by (cases m)
  show ?case
  proof (cases "local_decl k ms")
    case None
    then show ?thesis
      using Cons.IH[OF Cons.prems] group_prop_set_group_prop[OF Cons.prems]
      by (simp add: m)
  next
    case (Some w)
    then show ?thesis
      using Cons.IH[OF Cons.prems] by (simp add: m)
  qed
qed

lemma prefix_le_string: "prefix (a :: string) b \<Longrightarrow> a \<le> b"
proof (induction a arbitrary: b)
  case Nil
  then show ?case by simp
next
  case (Cons x a)
  then obtain b' where "b = x # b'" "prefix a b'" by (cases b) auto
  then show ?case using Cons.IH by simp
qed

lemma sorted_le_last: "sorted xs \<Longrightarrow> x \<in> set xs \<Longrightarrow> x \<le> last (xs :: 'a :: linorder list)"
  by (induction xs) auto

lemma join_butlast_prefix: "path \<noteq> [] \<Longrightarrow> prefix (join sep (butlast path)) (join sep path)"
proof (induction sep path rule: join.induct)
  case (1 sep)
  then show ?case by simp
next
  case (2 sep x)
  then show ?case by simp
next
  case (3 sep x y ys)
  then show ?case by (cases ys) simp_all
qed

lemma isParentGroup_parent:
  assumes "path \<noteq> []" and "path_jsonID (butlast path) \<noteq> path_jsonID path"
  shows "isParentGroup (path_jsonID path) (path_jsonID (butlast path))"
  using assms join_butlast_prefix[OF assms(1), of "''/''"]
  by (simp add: isParentGroup_def path_jsonID_def)

lemma join_take_prefix: "prefix (join sep (take n path)) (join sep path)"
proof (induction sep path arbitrary: n rule: join.induct)
  case (1 sep)
  then show ?case by simp
next
  case (2 sep x)
  then show ?case by (cases n) simp_all
next
  case (3 sep x y ys)
  show ?case
  proof (cases n)
    case 0
    then show ?thesis by simp
  next
    case (Suc m)
    show ?thesis
    proof (cases m)
      case 0
      then show ?thesis using Suc by simp
    next
      case (Suc m')
      have "prefix (join sep (take m (y # ys))) (join sep (y # ys))" by (rule 3)
      then show ?thesis using \<open>n = Suc m\<close> Suc by simp
    qed
  qed
qed

lemma ancestor_prefix: "a \<in> set (ancestor_ids path) \<Longrightarrow> prefix a (path_jsonID path)"
  by (auto simp: ancestor_ids_def path_jsonID_def join_take_prefix)

lemma join_take_length_mono:
  assumes "n \<le> m"
  shows "length (join sep (take n path)) \<le> length (join sep (take m path))"
proof -
  have "take n path = take n (take m path)" using assms by (simp add: min_def)
  then have "prefix (join sep (take n path)) (join sep (take m path))"
    using join_take_prefix[of sep n "take m path"] by simp
  then show ?thesis by (rule prefix_length_le)
qed

lemma ancestor_ids_descending:
  "sorted_wrt (\<lambda>a b. length b \<le> length a) (ancestor_ids path)"
proof -
  have "sorted_wrt (\<lambda>x y. x < y) [0..<length path]" by simp
  then have "sorted_wrt (\<lambda>x y. length (path_jsonID (take x path)) \<le> length (path_jsonID (take y path)))
               [0..<length path]"
    by (rule sorted_wrt_mono_rel[rotated]) (simp add: path_jsonID_def join_take_length_mono)
  then show ?thesis
    by (simp add: ancestor_ids_def sorted_wrt_map sorted_wrt_rev)
qed

lemma nearest_value_none:
  assumes "\<forall>a\<in>set as. prefix a j" and "\<forall>a\<in>set as. \<not> valued k gs j a"
  shows "nearest_value k gs j as dflt = dflt"
  using assms
proof (induction as)
  case Nil
  then show ?case by simp
next
  case (Cons a as)
  have IH: "nearest_value k gs j as dflt = dflt" using Cons by simp
  have p: "prefix a j" and nv: "\<not> valued k gs j a" using Cons.prems by simp_all
  show ?case
  proof (cases "map_of gs a")
    case None
    then show ?thesis using IH by simp
  next
    case (Some q)
    then have "\<not> (a \<noteq> j \<and> \<not> nullish (group_prop k q))"
      using nv p by (simp add: valued_def isParentGroup_def)
    then show ?thesis using Some IH by auto
  qed
qed

lemma nearest_value_longest:
  assumes "\<forall>a\<in>set as. prefix a j"
    and "sorted_wrt (\<lambda>a b. length b \<le> length a) as"
    and "m \<in> set as" and "valued k gs j m" and "map_of gs m = Some q"
    and "\<forall>i\<in>set as. valued k gs j i \<longrightarrow> length i \<le> length m"
  shows "nearest_value k gs j as dflt = group_prop k q"
  using assms
proof (induction as)
  case Nil
  then show ?case by simp
next
  case (Cons a as)
  show ?case
  proof (cases "valued k gs j a")
    case True
    then obtain p where p: "map_of gs a = Some p" "a \<noteq> j" "\<not> nullish (group_prop k p)"
      by (auto simp: valued_def isParentGroup_def split: option.splits)
    have "length a \<le> length m" using Cons.prems(6) True by simp
    moreover have "length m \<le> length a" using Cons.prems(2,3) by auto
    moreover have "prefix a j" "prefix m j" using Cons.prems(1,3) by auto
    ultimately have "a = m"
      by (metis prefix_length_prefix prefix_order.antisym)
    then show ?thesis using p Cons.prems(5) by simp
  next
    case False
    then have "m \<noteq> a" using Cons.prems(4) by auto
    then have m: "m \<in> set as" using Cons.prems(3) by simp
    have IH: "nearest_value k gs j as dflt = group_prop k q"
      using Cons.prems m by (intro Cons.IH) simp_all
    have "prefix a j" using Cons.prems(1) by simp
    then show ?thesis using False IH
      by (cases "map_of gs a") (auto simp: valued_def isParentGroup_def)
  qed
qed

lemma lex_le_prefix_length:
  assumes "prefix (a :: string) j" and "prefix b j" and "a \<le> b"
  shows "length a \<le> length b"
proof (rule ccontr)
  assume "\<not> length a \<le> length b"
  then have lt: "length b < length a" by simp
  then have "prefix b a" using assms(1,2) by (metis prefix_length_prefix less_imp_le)
  then have "b \<le> a" by (rule prefix_le_string)
  then have "a = b" using assms(3) by simp
  then show False using lt by simp
qed

lemma group_prop_new_group:
  "group_prop k (new_group i) = JUndefined"
  by (simp add: group_prop_def new_group_def)

text \<open>
  Claim C4, as amended. \<open>groupFromNode\<close> indexes the group at \<open>path\<close>, and every key of
  the index that is a proper string prefix of the group's \<open>jsonID\<close> is the \<open>jsonID\<close> of
  an ancestor of the group in the path tree. Then, for a cascading property \<open>k\<close>, the
  group's \<open>k\<close> is the value its node declares for \<open>k\<close> (the last member of that name);
  when the node declares none, it is the \<open>k\<close> of the nearest ancestor in the index whose
  \<open>k\<close> is neither \<open>undefined\<close> nor \<open>null\<close>, so the parent's when the parent has one,
  written over whatever the group held before; and when no ancestor has one, it is
  what the group held before, \<open>undefined\<close> for a group that is new to the index.
\<close>

theorem groupFromNode_nearest_ancestor:
  assumes k: "k \<in> {''$deprecated'', ''$description'', ''$type''}"
    and anc: "\<forall>i \<in> fst ` set gs. isParentGroup (path_jsonID path) i
                \<longrightarrow> i \<in> set (ancestor_ids path)"
  shows "\<exists>g. map_of (groupFromNode members path gs) (path_jsonID path) = Some g
           \<and> group_prop k g =
               (case local_decl k members of
                  Some v \<Rightarrow> v
                | None \<Rightarrow>
                    nearest_value k gs (path_jsonID path) (ancestor_ids path)
                      (case map_of gs (path_jsonID path) of
                         None \<Rightarrow> JUndefined
                       | Some old \<Rightarrow> group_prop k old))"
proof -
  let ?j = "path_jsonID path"
  let ?dflt = "case map_of gs ?j of None \<Rightarrow> JUndefined | Some old \<Rightarrow> group_prop k old"
  define gs1 where "gs1 = (case map_of gs ?j of
                   None \<Rightarrow> set_own ?j (new_group (join ''.'' path)) gs
                 | Some g \<Rightarrow> gs)"
  define ids where "ids = sort (own_keys gs1)"
  obtain g0 where g0: "map_of gs1 ?j = Some g0" and g0d: "group_prop k g0 = ?dflt"
    by (cases "map_of gs ?j") (auto simp: gs1_def map_of_set_own group_prop_new_group)
  have other: "map_of gs1 i = map_of gs i" if "i \<noteq> ?j" for i
    using that by (cases "map_of gs ?j") (auto simp: gs1_def map_of_set_own)
  have set_ids: "set ids = fst ` set gs1" by (simp add: ids_def set_own_keys)
  have sorted_ids: "sorted ids" by (simp add: ids_def)
  have defined: "\<forall>i\<in>set ids. map_of gs1 i \<noteq> None"
    by (simp add: set_ids map_of_eq_None_iff)
  let ?F = "\<lambda>i. isParentGroup ?j i \<and> \<not> nullish (group_prop k (the (map_of gs1 i)))"
  have F_valued: "i \<in> set (filter ?F ids) \<longleftrightarrow> valued k gs ?j i" for i
  proof (cases "i = ?j")
    case True
    then show ?thesis by (simp add: valued_def isParentGroup_def split: option.splits)
  next
    case False
    have "i \<in> set ids \<longleftrightarrow> map_of gs1 i \<noteq> None"
      unfolding set_ids by (simp add: map_of_eq_None_iff)
    then have "i \<in> set ids \<longleftrightarrow> map_of gs i \<noteq> None"
      using other[OF False] by simp
    then show ?thesis using other[OF False]
      by (cases "map_of gs i") (simp_all add: valued_def)
  qed
  have pre: "\<forall>a\<in>set (ancestor_ids path). prefix a ?j"
    using ancestor_prefix by blast
  have casc: "group_prop k (cascade gs1 ?j ids g0) =
                nearest_value k gs ?j (ancestor_ids path) ?dflt"
  proof (cases "filter ?F ids")
    case Nil
    then have "\<forall>i. \<not> valued k gs ?j i" using F_valued by (metis empty_iff list.set(1))
    then have "nearest_value k gs ?j (ancestor_ids path) ?dflt = ?dflt"
      using pre by (intro nearest_value_none) simp_all
    moreover have "group_prop k (cascade gs1 ?j ids g0) = group_prop k g0"
      using cascade_prop[OF k defined, of ?j g0] Nil by simp
    ultimately show ?thesis using g0d by simp
  next
    case (Cons x xs)
    let ?l = "last (x # xs)"
    have l_in: "?l \<in> set (filter ?F ids)" unfolding Cons by (rule last_in_set) simp
    then have lv: "valued k gs ?j ?l" using F_valued by simp
    then obtain q where q: "map_of gs ?l = Some q" and lp: "isParentGroup ?j ?l"
      by (auto simp: valued_def split: option.splits)
    have lne: "?l \<noteq> ?j" using lp by (simp add: isParentGroup_def)
    have l_anc: "?l \<in> set (ancestor_ids path)"
    proof -
      have "?l \<in> fst ` set gs" using q by (metis map_of_eq_None_iff option.distinct(1))
      then show ?thesis using anc lp by blast
    qed
    have srt: "sorted (filter ?F ids)" using sorted_ids by (rule sorted_wrt_filter)
    have longest: "\<forall>i\<in>set (ancestor_ids path). valued k gs ?j i \<longrightarrow> length i \<le> length ?l"
    proof (intro ballI impI)
      fix i assume "i \<in> set (ancestor_ids path)" and v: "valued k gs ?j i"
      then have "i \<in> set (filter ?F ids)" using F_valued by simp
      then have "i \<le> ?l" using srt sorted_le_last unfolding Cons by metis
      moreover have "prefix i ?j" using v by (auto simp: valued_def isParentGroup_def split: option.splits)
      moreover have "prefix ?l ?j" using lp by (simp add: isParentGroup_def)
      ultimately show "length i \<le> length ?l" by (intro lex_le_prefix_length)
    qed
    have "nearest_value k gs ?j (ancestor_ids path) ?dflt = group_prop k q"
      by (rule nearest_value_longest[OF pre ancestor_ids_descending l_anc lv q longest])
    moreover have "group_prop k (cascade gs1 ?j ids g0) = group_prop k q"
      using cascade_prop[OF k defined, of ?j g0] Cons other[OF lne] q by simp
    ultimately show ?thesis by simp
  qed
  have kG: "k \<in> set GROUP_PROPERTIES" using k by (auto simp: GROUP_PROPERTIES_def)
  have res: "groupFromNode members path gs =
      set_own ?j (local_override members (cascade gs1 ?j ids g0)) gs1"
    using g0 by (simp add: groupFromNode_def Let_def gs1_def[symmetric] ids_def[symmetric])
  show ?thesis
    unfolding res using local_override_prop[OF kG] casc
    by (simp add: map_of_set_own split: option.splits)
qed

lemma ex_ancestor_ids: "ancestor_ids [''a'', ''g'', ''c''] = [''#/a/g'', ''#/a'', ''#/'']"
  by code_simp

text \<open>
  In \<open>{"a": {"$type": "color", "g": {"$type": null, "c": {}}}}\<close> the group \<open>a.g.c\<close>, which
  declares nothing, takes the \<open>$type\<close> of \<open>a\<close>, the nearest ancestor that has one.
\<close>

theorem groupFromNode_nearest_ancestor_witness:
  "\<exists>g. map_of (groupFromNode [] [''a'', ''g'', ''c'']
                 [(''#/a'', mk_group ''a'' (JStr ''color'')), (''#/a/g'', mk_group ''a.g'' JNull)])
            ''#/a/g/c'' = Some g
       \<and> type_g g = JStr ''color''"
proof -
  let ?path = "[''a'', ''g'', ''c'']"
  let ?gs = "[(''#/a'', mk_group ''a'' (JStr ''color'')), (''#/a/g'', mk_group ''a.g'' JNull)]"
  have 1: "''$type'' \<in> {''$deprecated'', ''$description'', ''$type''}" by simp
  have 2: "\<forall>i \<in> fst ` set ?gs. isParentGroup (path_jsonID ?path) i
                \<longrightarrow> i \<in> set (ancestor_ids ?path)"
    by (simp add: ex_ancestor_ids)
  have 3: "nearest_value ''$type'' ?gs (path_jsonID ?path) (ancestor_ids ?path)
             (case map_of ?gs (path_jsonID ?path) of
                None \<Rightarrow> JUndefined
              | Some old \<Rightarrow> group_prop ''$type'' old) = JStr ''color''"
    by (simp add: ex_ancestor_ids path_jsonID_def group_prop_def mk_group_def)
  show ?thesis
    using groupFromNode_nearest_ancestor[OF 1 2, of "[]"] 3
    by (simp add: path_jsonID_def group_prop_def)
qed

text \<open>
  The nearest ancestor with a value is the parent whenever the parent has one.
\<close>

lemma groupFromNode_parent_value:
  assumes k: "k \<in> {''$deprecated'', ''$description'', ''$type''}"
    and anc: "\<forall>i \<in> fst ` set gs. isParentGroup (path_jsonID path) i
                \<longrightarrow> i \<in> set (ancestor_ids path)"
    and path: "path \<noteq> []"
    and ne: "path_jsonID (butlast path) \<noteq> path_jsonID path"
    and parent: "map_of gs (path_jsonID (butlast path)) = Some p"
    and present: "\<not> nullish (group_prop k p)"
  shows "nearest_value k gs (path_jsonID path) (ancestor_ids path) dflt = group_prop k p"
proof -
  obtain xs x where px: "path = xs @ [x]" using path by (metis rev_exhaust)
  have "ancestor_ids path = path_jsonID xs # ancestor_ids xs"
    by (simp add: ancestor_ids_def px)
  then show ?thesis using parent present ne by (simp add: px)
qed

lemma ex_null_walk_step1:
  "groupFromNode
     [(''$type'', JStr ''color''), (''g'', JObj [(''$type'', JNull), (''c'', JObj [])])]
     [''a''] [] = [(''#/a'', mk_group ''a'' (JStr ''color''))]"
  by code_simp

lemma ex_null_walk_step2:
  "groupFromNode [(''$type'', JNull), (''c'', JObj [])] [''a'', ''g'']
     [(''#/a'', mk_group ''a'' (JStr ''color''))] =
   [(''#/a'', mk_group ''a'' (JStr ''color'')), (''#/a/g'', mk_group ''a.g'' JNull)]"
  by code_simp

lemma ex_null_walk_step3:
  "groupFromNode [] [''a'', ''g'', ''c'']
     [(''#/a'', mk_group ''a'' (JStr ''color'')), (''#/a/g'', mk_group ''a.g'' JNull)] =
   [(''#/a'', mk_group ''a'' (JStr ''color'')), (''#/a/g'', mk_group ''a.g'' JNull),
    (''#/a/g/c'', mk_group ''a.g.c'' (JStr ''color''))]"
  by code_simp

text \<open>
  Claim C4 as stated fails on \<open>{"a": {"$type": "color", "g": {"$type": null, "c": {}}}}\<close>.
  The group \<open>a.g.c\<close> declares no \<open>$type\<close> and its parent \<open>a.g\<close> has the \<open>$type\<close>
  \<open>null\<close>, the value \<open>a.g\<close> declares; yet \<open>a.g.c\<close> ends with \<open>color\<close>, which the cascade
  took from \<open>a\<close> because the nearer value is nullish. (Read with \<open>??\<close>, the claim fails
  at \<open>a.g\<close> instead, which keeps its own \<open>null\<close> and not the \<open>color\<close> of \<open>a\<close>.)
\<close>

theorem groupFromNode_cascade_counterexample:
  "\<exists>a g c. map_of ex_null_walk ''#/a'' = Some a
       \<and> map_of ex_null_walk ''#/a/g'' = Some g
       \<and> map_of ex_null_walk ''#/a/g/c'' = Some c
       \<and> local_decl ''$type'' [] = None
       \<and> type_g a = JStr ''color'' \<and> type_g g = JNull \<and> type_g c = JStr ''color''
       \<and> type_g c \<noteq> type_g g"
  unfolding ex_null_walk_def ex_null_walk_step1 ex_null_walk_step2 ex_null_walk_step3
  by (simp add: mk_group_def)

lemma ex_sibling_walk_step1:
  "groupFromNode [(''a'', JObj [(''$type'', JStr ''color'')]), (''ab'', JObj [])] [''x''] [] =
   [(''#/x'', mk_group ''x'' JUndefined)]"
  by code_simp

lemma ex_sibling_walk_step2:
  "groupFromNode [(''$type'', JStr ''color'')] [''x'', ''a''] [(''#/x'', mk_group ''x'' JUndefined)] =
   [(''#/x'', mk_group ''x'' JUndefined), (''#/x/a'', mk_group ''x.a'' (JStr ''color''))]"
  by code_simp

lemma ex_sibling_walk_step3:
  "groupFromNode [] [''x'', ''ab'']
     [(''#/x'', mk_group ''x'' JUndefined), (''#/x/a'', mk_group ''x.a'' (JStr ''color''))] =
   [(''#/x'', mk_group ''x'' JUndefined), (''#/x/a'', mk_group ''x.a'' (JStr ''color'')),
    (''#/x/ab'', mk_group ''x.ab'' (JStr ''color''))]"
  by code_simp

text \<open>
  \<open>isParentGroup\<close> compares strings, not paths: in
  \<open>{"x": {"a": {"$type": "color"}, "ab": {}}}\<close> the group \<open>x.ab\<close> takes the \<open>$type\<close> of
  its sibling \<open>x.a\<close>, whose \<open>jsonID\<close> is a string prefix of its own, while its parent
  \<open>x\<close> has none.
\<close>

lemma groupFromNode_sibling_prefix:
  "\<exists>x ab. map_of ex_sibling_walk ''#/x'' = Some x
       \<and> map_of ex_sibling_walk ''#/x/ab'' = Some ab
       \<and> type_g x = JUndefined \<and> type_g ab = JStr ''color''"
  unfolding ex_sibling_walk_def ex_sibling_walk_step1 ex_sibling_walk_step2 ex_sibling_walk_step3
  by (simp add: mk_group_def)

section \<open>Properties of the resolver\<close>

lemma aliasToRef_suffix:
  "aliasToRef a = Some r \<Longrightarrow> r = strip_value_suffix r @ ''/$value''"
  by (auto simp: aliasToRef_def Let_def strip_value_suffix_def suffix_def split: if_splits)

lemma alias_stepD:
  assumes "alias_step toks mode a = Some b"
  obtains r t ms where "aliasToRef a = Some r" "map_of toks (strip_value_suffix r) = Some t"
    "map_of (mode_t t) mode = Some ms" "as_alias (originalValue_m ms) = Some b"
  using assms by (auto simp: alias_step_def split: option.splits)

lemma resolveInner_circular:
  assumes "aliasToRef alias = Some r" and "r \<in> set refChain"
  shows "resolveInner True toks mode alias refChain diag =
           Some (Inl (LoggerError CircularAlias), refChain, diag @ [CircularAlias])"
  using assms by (subst resolveInner.simps) simp

lemma resolveInner_missing:
  assumes "aliasToRef alias = Some r" and "map_of toks (strip_value_suffix r) = None"
    and "r \<notin> set refChain"
  shows "resolveInner throws toks mode alias refChain diag =
           Some (Inl (if throws then LoggerError (CouldNotResolve alias) else TypeError),
                 (if throws then refChain else refChain @ [r]),
                 diag @ [CouldNotResolve alias])"
  using assms by (subst resolveInner.simps) simp

lemma resolveInner_step:
  assumes "aliasToRef alias = Some r" and "map_of toks (strip_value_suffix r) = Some t"
    and "map_of (mode_t t) mode = Some ms" and "as_alias (originalValue_m ms) = Some a"
    and "r \<notin> set refChain \<or> \<not> throws"
  shows "resolveInner throws toks mode alias refChain diag =
           resolveInner throws toks mode a (refChain @ [r])
             (if r \<in> set refChain then diag @ [CircularAlias] else diag)"
  using assms by (subst resolveInner.simps) auto

lemma resolveInner_stop:
  assumes "aliasToRef alias = Some r" and "map_of toks (strip_value_suffix r) = Some t"
    and "map_of (mode_t t) mode = Some ms" and "as_alias (originalValue_m ms) = None"
    and "r \<notin> set refChain \<or> \<not> throws"
  shows "resolveInner throws toks mode alias refChain diag =
           Some (Inr (jsonID_t t), refChain @ [r],
                 (if r \<in> set refChain then diag @ [CircularAlias] else diag))"
  using assms by (subst resolveInner.simps) auto

lemma unvisited_less:
  assumes "aliasToRef alias = Some r" and "map_of toks (strip_value_suffix r) = Some t"
    and "r \<notin> set refChain"
  shows "unvisited toks (refChain @ [r]) < unvisited toks refChain"
proof -
  let ?R = "(\<lambda>k. k @ ''/$value'') ` fst ` set toks"
  have "(strip_value_suffix r, t) \<in> set toks"
    using assms(2) by (rule map_of_SomeD)
  then have "strip_value_suffix r \<in> fst ` set toks"
    by (rule rev_image_eqI) simp
  then have "strip_value_suffix r @ ''/$value'' \<in> ?R" by (rule imageI)
  then have "r \<in> ?R" using aliasToRef_suffix[OF assms(1)] by simp
  then have in_diff: "r \<in> ?R - set refChain" using assms(3) by simp
  have eq: "?R - set (refChain @ [r]) = (?R - set refChain) - {r}" by auto
  have fin: "finite (?R - set refChain)" by simp
  show ?thesis
    unfolding unvisited_def eq using fin in_diff by (rule card_Diff1_less)
qed

lemma resolveInner_total:
  "\<exists>res. resolveInner True toks mode alias refChain diag = Some res"
proof (induction "unvisited toks refChain" arbitrary: "alias" refChain diag rule: less_induct)
  case less
  show ?case
  proof (cases "aliasToRef alias")
    case None
    then show ?thesis by (subst resolveInner.simps) simp
  next
    case (Some r)
    show ?thesis
    proof (cases "r \<in> set refChain")
      case True
      then show ?thesis using resolveInner_circular[OF Some] by simp
    next
      case False
      show ?thesis
      proof (cases "map_of toks (strip_value_suffix r)")
        case None
        then show ?thesis using resolveInner_missing[OF Some None False] by simp
      next
        case t: (Some t)
        show ?thesis
        proof (cases "map_of (mode_t t) mode")
          case None
          then show ?thesis using Some t False by (subst resolveInner.simps) simp
        next
          case ms: (Some ms)
          show ?thesis
          proof (cases "as_alias (originalValue_m ms)")
            case None
            then show ?thesis using resolveInner_stop[OF Some t ms None] False by simp
          next
            case a: (Some a)
            have "unvisited toks (refChain @ [r]) < unvisited toks refChain"
              by (rule unvisited_less[OF Some t False])
            from less[OF this] show ?thesis
              using resolveInner_step[OF Some t ms a] False by simp
          qed
        qed
      qed
    qed
  qed
qed

lemma resolveInner_cycle_throwing:
  assumes "endless toks mode S" and "alias \<in> S"
  shows "\<exists>extra.
           resolveInner True toks mode alias refChain diag =
             Some (Inl (LoggerError CircularAlias), refChain @ extra, diag @ [CircularAlias])
           \<and> distinct extra \<and> set extra \<inter> set refChain = {}"
  using assms(2)
proof (induction "unvisited toks refChain" arbitrary: "alias" refChain rule: less_induct)
  case less
  from assms(1) less.prems obtain b where b: "b \<in> S" "alias_step toks mode alias = Some b"
    unfolding endless_def by blast
  from b(2) obtain r t ms where
    r: "aliasToRef alias = Some r" and t: "map_of toks (strip_value_suffix r) = Some t"
    and ms: "map_of (mode_t t) mode = Some ms" and a: "as_alias (originalValue_m ms) = Some b"
    by (rule alias_stepD)
  show ?case
  proof (cases "r \<in> set refChain")
    case True
    then show ?thesis using resolveInner_circular[OF r True, of toks mode diag] by simp
  next
    case False
    have "unvisited toks (refChain @ [r]) < unvisited toks refChain"
      by (rule unvisited_less[OF r t False])
    from less.hyps[OF this b(1)] obtain extra where
      e: "resolveInner True toks mode b (refChain @ [r]) diag =
             Some (Inl (LoggerError CircularAlias), (refChain @ [r]) @ extra, diag @ [CircularAlias])"
         "distinct extra" "set extra \<inter> set (refChain @ [r]) = {}"
      by blast
    have "resolveInner True toks mode alias refChain diag =
             Some (Inl (LoggerError CircularAlias), refChain @ (r # extra), diag @ [CircularAlias])"
      using resolveInner_step[OF r t ms a, of refChain True diag] False e(1) by simp
    moreover have "distinct (r # extra)" "set (r # extra) \<inter> set refChain = {}"
      using e(2,3) False by auto
    ultimately show ?thesis by blast
  qed
qed

lemma resolveInner_returning_aux:
  assumes e: "endless toks mode S"
    and y: "resolveInner throws toks' mode' a refChain diag = Some y"
  shows "\<not> (\<not> throws \<and> toks' = toks \<and> mode' = mode \<and> a \<in> S)"
proof (rule resolveInner.raw_induct
         [where P = "\<lambda>throws toks' mode' a refChain diag y.
                       \<not> (\<not> throws \<and> toks' = toks \<and> mode' = mode \<and> a \<in> S)", OF _ y])
  fix f :: "bool \<Rightarrow> tokens \<Rightarrow> string \<Rightarrow> string \<Rightarrow> string list \<Rightarrow> message list \<Rightarrow> resolved option"
  fix throws toks' mode' a refChain diag y
  assume IH: "\<And>throws toks' mode' a refChain diag y.
           f throws toks' mode' a refChain diag = Some y \<Longrightarrow>
           \<not> (\<not> throws \<and> toks' = toks \<and> mode' = mode \<and> a \<in> S)"
  assume body: "(let nextID = aliasToRef a;
          circular = (case nextID of None \<Rightarrow> False | Some r \<Rightarrow> r \<in> set refChain);
          diag1 = (if circular then diag @ [CircularAlias] else diag)
      in if circular \<and> throws then Some (Inl (LoggerError CircularAlias), refChain, diag1)
         else
           let nextToken =
                 (case nextID of None \<Rightarrow> None | Some r \<Rightarrow> map_of toks' (strip_value_suffix r));
               diag2 = (if nextToken = None then diag1 @ [CouldNotResolve a] else diag1)
           in if nextToken = None \<and> throws
              then Some (Inl (LoggerError (CouldNotResolve a)), refChain, diag2)
              else
                (case nextID of
                   None \<Rightarrow> Some (Inl TypeError, refChain, diag2)
                 | Some r \<Rightarrow>
                     (case nextToken of
                        None \<Rightarrow> Some (Inl TypeError, refChain @ [r], diag2)
                      | Some t \<Rightarrow>
                          (case map_of (mode_t t) mode' of
                             None \<Rightarrow> Some (Inl TypeError, refChain @ [r], diag2)
                           | Some ms \<Rightarrow>
                               (case as_alias (originalValue_m ms) of
                                  Some a \<Rightarrow> f throws toks' mode' a (refChain @ [r]) diag2
                                | None \<Rightarrow> Some (Inr (jsonID_t t), refChain @ [r], diag2)))))) = Some y"
  show "\<not> (\<not> throws \<and> toks' = toks \<and> mode' = mode \<and> a \<in> S)"
  proof (rule notI)
    assume h: "\<not> throws \<and> toks' = toks \<and> mode' = mode \<and> a \<in> S"
    with e obtain b where b: "b \<in> S" "alias_step toks mode a = Some b"
      unfolding endless_def by blast
    from b(2) obtain r t ms where
      r: "aliasToRef a = Some r" and t: "map_of toks (strip_value_suffix r) = Some t"
      and ms: "map_of (mode_t t) mode = Some ms" and al: "as_alias (originalValue_m ms) = Some b"
      by (rule alias_stepD)
    have "f False toks mode b (refChain @ [r])
            (if r \<in> set refChain then diag @ [CircularAlias] else diag) = Some y"
      using body h r t ms al by (simp add: Let_def)
    from IH[OF this] b(1) show False by simp
  qed
qed

lemma resolveInner_cycle_returning:
  assumes "endless toks mode S" and "a \<in> S"
  shows "resolveInner False toks mode a refChain diag = None"
proof (cases "resolveInner False toks mode a refChain diag")
  case None
  then show ?thesis .
next
  case (Some y)
  from resolveInner_returning_aux[OF assms(1) Some] assms(2) show ?thesis by simp
qed

subsection \<open>The traversal\<close>

text \<open>
  The traversal writes into the map and reports diagnostics; the token set it leaves
  as it is. With a logger that raises, every call returns.
\<close>


lemma logger_error_tokens: "tokens_s (snd (logger_error throws m st)) = tokens_s st"
  by (simp add: logger_error_def)

lemma check_type_tokens: "check_type throws ets target st = (e, st1) \<Longrightarrow> tokens_s st1 = tokens_s st"
  by (auto simp: check_type_def logger_error_def split: option.splits list.splits if_splits)

lemma record_ref_tokens: "record_ref mode key entry st = (e, st1) \<Longrightarrow> tokens_s st1 = tokens_s st"
  by (auto simp: record_ref_def split: option.splits)

lemma resolve_site_tokens:
  assumes "resolve_site throws mode filename s ets path st = Some (v, e, st1)"
  shows "tokens_s st1 = tokens_s st"
proof (cases "resolveInner throws (tokens_s st) mode s [] (diag_s st)")
  case None
  then show ?thesis using assms by (simp add: resolve_site_def)
next
  case (Some res)
  obtain out refChain diag where res: "res = (out, refChain, diag)" by (cases res)
  show ?thesis
  proof (cases out)
    case (Inl x)
    then show ?thesis using assms Some res by (auto simp: resolve_site_def)
  next
    case (Inr resolvedID)
    let ?target = "map_of (tokens_s st) resolvedID"
    obtain e1 st1' where c: "check_type throws ets ?target (st\<lparr>diag_s := diag\<rparr>) = (e1, st1')"
      by (cases "check_type throws ets ?target (st\<lparr>diag_s := diag\<rparr>)")
    have t1: "tokens_s st1' = tokens_s st" using check_type_tokens[OF c] by simp
    show ?thesis
    proof (cases e1)
      case (Some x)
      then show ?thesis using assms \<open>resolveInner _ _ _ _ _ _ = Some res\<close> res Inr c t1
        by (auto simp: resolve_site_def Let_def)
    next
      case None
      obtain e2 st2 where r: "record_ref mode (join ''/'' path)
            \<lparr>filename_r = filename, refChain_r = refChain\<rparr> st1' = (e2, st2)"
        by (cases "record_ref mode (join ''/'' path)
            \<lparr>filename_r = filename, refChain_r = refChain\<rparr> st1'")
      have t2: "tokens_s st2 = tokens_s st" using record_ref_tokens[OF r] t1 by simp
      show ?thesis
        using assms \<open>resolveInner _ _ _ _ _ _ = Some res\<close> res Inr c None r t2
        by (auto simp: resolve_site_def Let_def split: option.splits)
    qed
  qed
qed

lemma traverse_tokens:
  "\<forall>w e st1. traverseAndResolve throws mode filename v nd ets path st = Some (w, e, st1)
      \<longrightarrow> tokens_s st1 = tokens_s st"
  "\<forall>ys e st1. traverse_elements throws mode filename i xs nd ets path st = Some (ys, e, st1)
      \<longrightarrow> tokens_s st1 = tokens_s st"
  "\<forall>ms1 e st1. traverse_members throws mode filename todo cur nd slots path st = Some (ms1, e, st1)
      \<longrightarrow> tokens_s st1 = tokens_s st"
proof (induction throws mode filename v nd ets path st
         and throws mode filename i xs nd ets path st
         and throws mode filename todo cur nd slots path st
       rule: traverseAndResolve_traverse_elements_traverse_members.induct)
  case (1 throws mode filename s nd expectedTypes path st)
  show ?case
  proof (intro allI impI)
    fix w e st1
    assume a: "traverseAndResolve throws mode filename (JStr s) nd expectedTypes path st = Some (w, e, st1)"
    show "tokens_s st1 = tokens_s st"
    proof (cases "isAlias s")
      case True
      then have "resolve_site throws mode filename s expectedTypes path st = Some (w, e, st1)"
        using a by simp
      then show ?thesis by (rule resolve_site_tokens)
    next
      case False
      then show ?thesis using a by (simp add: logger_error_def split: if_splits) clarsimp+
    qed
  qed
next
  case (2 throws mode filename xs nd expectedTypes path st)
  show ?case
  proof (intro allI impI)
    fix w e st1
    assume a: "traverseAndResolve throws mode filename (JArr xs) nd expectedTypes path st = Some (w, e, st1)"
    then obtain ys where "traverse_elements throws mode filename 0 xs nd (element_types expectedTypes) path st
        = Some (ys, e, st1)"
      by (cases "traverse_elements throws mode filename 0 xs nd (element_types expectedTypes) path st")
         auto
    then show "tokens_s st1 = tokens_s st" by (rule 2[rule_format])
  qed
next
  case (3 throws mode filename ms nd expectedTypes path st)
  show ?case
  proof (intro allI impI)
    fix w e st1
    assume a: "traverseAndResolve throws mode filename (JObj ms) nd expectedTypes path st = Some (w, e, st1)"
    show "tokens_s st1 = tokens_s st"
    proof (cases "nested_slots expectedTypes")
      case None
      then show ?thesis using a by simp
    next
      case (Some slots)
      then obtain ms1 where "traverse_members throws mode filename (js_order ms) ms nd slots path st
          = Some (ms1, e, st1)"
        using a
        by (cases "traverse_members throws mode filename (js_order ms) ms nd slots path st")
           (simp_all split: prod.splits)
      then show ?thesis by (rule 3[OF Some, rule_format])
    qed
  qed
next
  case (4 throws mode filename nd expectedTypes path st)
  then show ?case by simp
next
  case (5 throws mode filename nd expectedTypes path st)
  then show ?case by simp
next
  case (6 throws mode filename b nd expectedTypes path st)
  then show ?case by simp
next
  case (7 throws mode filename n nd expectedTypes path st)
  then show ?case by simp
next
  case (8 throws mode filename i nd expectedTypes path st)
  then show ?case by simp
next
  case (9 throws mode filename i x xs nd expectedTypes path st)
  show ?case
  proof (intro allI impI)
    fix zs e st1
    assume a: "traverse_elements throws mode filename i (x # xs) nd expectedTypes path st = Some (zs, e, st1)"
    show "tokens_s st1 = tokens_s st"
    proof (cases "truthy x")
      case False
      then obtain ys where "traverse_elements throws mode filename (Suc i) xs nd expectedTypes path st
          = Some (ys, e, st1)"
        using a
        by (cases "traverse_elements throws mode filename (Suc i) xs nd expectedTypes path st")
           (simp_all split: prod.splits)
      then show ?thesis by (rule 9(1)[OF False, rule_format])
    next
      case True
      show ?thesis
      proof (cases "element_node nd i")
        case None
        then show ?thesis using True a by simp
      next
        case (Some n)
        show ?thesis
        proof (cases "traverseAndResolve throws mode filename x (Some n) expectedTypes (path @ [show_nat i]) st")
          case None
          then show ?thesis using True Some a by simp
        next
          case r: (Some res)
          obtain y e' st' where res: "res = (y, e', st')" by (cases res)
          have t: "tokens_s st' = tokens_s st"
            using True by (intro 9(2)[OF _ Some, rule_format, OF _ r[unfolded res]]) simp
          show ?thesis
          proof (cases e')
            case None
            have ih: "\<forall>ys e st1. traverse_elements throws mode filename (Suc i) xs nd expectedTypes path st'
                  = Some (ys, e, st1) \<longrightarrow> tokens_s st1 = tokens_s st'"
              using True res None by (intro 9(3)[OF _ Some r, of y "(e', st')" e' st']) simp_all
            obtain ys where
              ys: "traverse_elements throws mode filename (Suc i) xs nd expectedTypes path st' = Some (ys, e, st1)"
              using a True Some r res None
              by (cases "traverse_elements throws mode filename (Suc i) xs nd expectedTypes path st'")
                 (simp_all split: prod.splits)
            from ih[rule_format, OF ys] have "tokens_s st1 = tokens_s st'" .
            then show ?thesis using t by simp
          next
            case (Some ex)
            then have "st1 = st'" using True \<open>element_node nd i = Some n\<close> r res a by simp
            then show ?thesis using t by simp
          qed
        qed
      qed
    qed
  qed
next
  case (10 throws mode filename cur nd slots path st)
  then show ?case by simp
next
  case (11 throws mode filename key v rest cur nd slots path st)
  show ?case
  proof (intro allI impI)
    fix ms1 e st1
    assume a: "traverse_members throws mode filename ((key, v) # rest) cur nd slots path st = Some (ms1, e, st1)"
    show "tokens_s st1 = tokens_s st"
    proof (cases "traverseAndResolve throws mode filename v (getObjMember nd key) (slot_types slots key) (path @ [key]) st")
      case None
      then show ?thesis using a by simp
    next
      case r: (Some res)
      obtain y e' st' where res: "res = (y, e', st')" by (cases res)
      have t: "tokens_s st' = tokens_s st"
        by (rule 11(1)[rule_format, OF r[unfolded res]])
      show ?thesis
      proof (cases e')
        case None
        then have m: "traverse_members throws mode filename rest (set_own key y cur) nd slots path st'
            = Some (ms1, e, st1)"
          using a r res by simp
        have ih: "\<forall>ms1 e st1. traverse_members throws mode filename rest (set_own key y cur) nd slots path st'
              = Some (ms1, e, st1) \<longrightarrow> tokens_s st1 = tokens_s st'"
          using res None by (intro 11(2)[OF r, of y "(e', st')" e' st']) simp_all
        from ih[rule_format, OF m] have "tokens_s st1 = tokens_s st'" .
        then show ?thesis using t by simp
      next
        case (Some ex)
        then have "st1 = st'" using r res a by simp
        then show ?thesis using t by simp
      qed
    qed
  qed
qed

lemma resolve_site_total:
  "\<exists>res. resolve_site True mode filename s ets path st = Some res"
proof -
  obtain out refChain diag where r: "resolveInner True (tokens_s st) mode s [] (diag_s st) = Some (out, refChain, diag)"
    using resolveInner_total[of "tokens_s st" mode s "[]" "diag_s st"] by (metis prod_cases3)
  show ?thesis
  proof (cases out)
    case (Inl e)
    then show ?thesis using r by (simp add: resolve_site_def)
  next
    case (Inr resolvedID)
    then show ?thesis using r
      by (simp add: resolve_site_def Let_def split: prod.splits option.splits)
  qed
qed

lemma traverse_total:
  "\<exists>res. traverseAndResolve throws mode filename v nd ets path st = Some res \<or> \<not> throws"
  "\<exists>res. traverse_elements throws mode filename i xs nd ets path st = Some res \<or> \<not> throws"
  "\<exists>res. traverse_members throws mode filename todo cur nd slots path st = Some res \<or> \<not> throws"
proof (induction throws mode filename v nd ets path st
         and throws mode filename i xs nd ets path st
         and throws mode filename todo cur nd slots path st
       rule: traverseAndResolve_traverse_elements_traverse_members.induct)
  case (1 throws mode filename s nd expectedTypes path st)
  show ?case
  proof (cases throws)
    case True
    then show ?thesis
      using resolve_site_total[of mode filename s expectedTypes path st]
      by (simp add: logger_error_def)
  next
    case False
    then show ?thesis by simp
  qed
next
  case (2 throws mode filename xs nd expectedTypes path st)
  show ?case
  proof (cases throws)
    case True
    with 2 obtain res where
      "traverse_elements throws mode filename 0 xs nd (element_types expectedTypes) path st = Some res"
      by auto
    then show ?thesis by (simp split: prod.splits)
  next
    case False
    then show ?thesis by simp
  qed
next
  case (3 throws mode filename ms nd expectedTypes path st)
  show ?case
  proof (cases throws)
    case True
    show ?thesis
    proof (cases "nested_slots expectedTypes")
      case None
      then show ?thesis by simp
    next
      case (Some slots)
      with 3[OF Some] True obtain res where
        "traverse_members throws mode filename (js_order ms) ms nd slots path st = Some res"
        by auto
      then show ?thesis using Some by (simp split: prod.splits)
    qed
  next
    case False
    then show ?thesis by simp
  qed
next
  case (4 throws mode filename nd expectedTypes path st)
  then show ?case by simp
next
  case (5 throws mode filename nd expectedTypes path st)
  then show ?case by simp
next
  case (6 throws mode filename b nd expectedTypes path st)
  then show ?case by simp
next
  case (7 throws mode filename n nd expectedTypes path st)
  then show ?case by simp
next
  case (8 throws mode filename i nd expectedTypes path st)
  then show ?case by simp
next
  case (9 throws mode filename i x xs nd expectedTypes path st)
  show ?case
  proof (cases throws)
    case False
    then show ?thesis by simp
  next
    case T: True
    show ?thesis
    proof (cases "truthy x")
      case False
      with 9(1) T obtain res where
        "traverse_elements throws mode filename (Suc i) xs nd expectedTypes path st = Some res"
        by auto
      then show ?thesis using False by (simp split: prod.splits)
    next
      case True
      show ?thesis
      proof (cases "element_node nd i")
        case None
        then show ?thesis using True by simp
      next
        case (Some n)
        have "\<exists>res. traverseAndResolve throws mode filename x (Some n) expectedTypes (path @ [show_nat i]) st = Some res"
          using 9(2)[OF _ Some] True T by simp
        then obtain y e' st' where r: "traverseAndResolve throws mode filename x (Some n) expectedTypes
            (path @ [show_nat i]) st = Some (y, e', st')"
          by (metis prod_cases3)
        show ?thesis
        proof (cases e')
          case None
          have "\<exists>res. traverse_elements throws mode filename (Suc i) xs nd expectedTypes path st' = Some res"
            using 9(3)[OF _ Some r, of y "(e', st')" e' st'] True T None by simp
          then obtain res where
            "traverse_elements throws mode filename (Suc i) xs nd expectedTypes path st' = Some res" ..
          then show ?thesis using True Some r None by (simp split: prod.splits)
        next
          case (Some ex)
          then show ?thesis using True \<open>element_node nd i = Some n\<close> r by simp
        qed
      qed
    qed
  qed
next
  case (10 throws mode filename cur nd slots path st)
  then show ?case by simp
next
  case (11 throws mode filename key v rest cur nd slots path st)
  show ?case
  proof (cases throws)
    case False
    then show ?thesis by simp
  next
    case T: True
    have "\<exists>res. traverseAndResolve throws mode filename v (getObjMember nd key) (slot_types slots key) (path @ [key]) st = Some res"
      using 11(1) T by simp
    then obtain y e' st' where r: "traverseAndResolve throws mode filename v (getObjMember nd key)
        (slot_types slots key) (path @ [key]) st = Some (y, e', st')"
      by (metis prod_cases3)
    show ?thesis
    proof (cases e')
      case None
      have "\<exists>res. traverse_members throws mode filename rest (set_own key y cur) nd slots path st' = Some res"
        using 11(2)[OF r, of y "(e', st')" e' st'] T None by simp
      then show ?thesis using r None by simp
    next
      case (Some ex)
      then show ?thesis using r by simp
    qed
  qed
qed

lemma resolve_mode_total: "\<exists>res. resolve_mode True key mode st = Some res"
proof (cases "map_of (tokens_s st) key")
  case None
  then show ?thesis by (simp add: resolve_mode_def)
next
  case (Some t)
  show ?thesis
  proof (cases "map_of (mode_t t) mode")
    case None
    then show ?thesis using Some by (simp add: resolve_mode_def)
  next
    case ms: (Some ms)
    obtain v e st1 where "traverseAndResolve True mode (source_filename_t t) (value_m ms)
        (getObjMember (Some (source_node_t t)) ''$value'')
        (if truthy (type_t t) then Some [type_t t] else None) [jsonID_t t, ''$value''] st
        = Some (v, e, st1)"
      using traverse_total(1)[of True] by (metis prod_cases3)
    then show ?thesis using Some ms
      by (cases e) (simp_all add: resolve_mode_def Let_def)
  qed
qed

lemma resolve_modes_total: "\<exists>res. resolve_modes True key modes st = Some res"
proof (induction modes arbitrary: st)
  case Nil
  then show ?case by simp
next
  case (Cons m modes)
  obtain e st1 where r: "resolve_mode True key m st = Some (e, st1)"
    using resolve_mode_total[of key m st] by (metis surj_pair)
  show ?case using r Cons[of st1] by (cases e) simp_all
qed

lemma resolve_tokens_total: "\<exists>res. resolve_tokens True keys st = Some res"
proof (induction keys arbitrary: st)
  case Nil
  then show ?case by simp
next
  case (Cons k keys)
  obtain e st1 where r: "resolve_modes True k
      (case map_of (tokens_s st) k of None \<Rightarrow> [] | Some t \<Rightarrow> own_keys (mode_t t)) st = Some (e, st1)"
    using resolve_modes_total by (metis surj_pair)
  show ?case using r Cons[of st1] by (cases e) simp_all
qed

lemma resolveAliases_total: "\<exists>res. resolveAliases True toks modeRefMap = Some res"
  unfolding resolveAliases_def by (rule resolve_tokens_total)

subsection \<open>The assignment of the resolved value\<close>

lemma aliasToRef_isAlias: "aliasToRef a = Some r \<Longrightarrow> isAlias a"
  by (auto simp: aliasToRef_def Let_def parseAlias_def split: if_splits)

lemma map_of_update_own:
  "map_of (update_own k f ms) k' = (if k' = k then map_option f (map_of ms k) else map_of ms k')"
  unfolding update_own_def by (induction ms) auto

lemma mode_value_set:
  "mode_value (set_mode_value key mode v toks) key' mode' =
     (if key' = key \<and> mode' = mode \<and> mode_value toks key mode \<noteq> None then Some v
      else mode_value toks key' mode')"
  by (auto simp: mode_value_def set_mode_value_def map_of_update_own split: option.splits)

lemma mode_value_promote:
  "mode_value (promote_value key mode toks) key' mode' = mode_value toks key' mode'"
  by (auto simp: mode_value_def promote_value_def map_of_update_own split: option.splits)

lemma root_value_set:
  "map_option value_t (map_of (set_mode_value key mode v toks) key') =
   map_option value_t (map_of toks key')"
  by (cases "map_of toks key") (simp_all add: set_mode_value_def map_of_update_own)

lemma root_value_promote:
  "map_option value_t (map_of (promote_value key mode toks) key') =
     (if key' = key \<and> mode_value toks key mode \<noteq> None then mode_value toks key mode
      else map_option value_t (map_of toks key'))"
  by (auto simp: mode_value_def promote_value_def map_of_update_own split: option.splits)

text \<open>
  Claim C7. The traversal of the mode-\<open>m\<close> value of a token has returned \<open>finalValue\<close>
  without an exception. Then \<open>mode[m].$value\<close> is \<open>finalValue\<close> when that is truthy, and
  the value the mode held before when it is falsy; the \<open>$value\<close> of the token itself is
  then the one of the mode when the mode is \<open>.\<close>, and stays as it was in any other
  mode.
\<close>

theorem resolve_mode_assigns:
  assumes t: "map_of (tokens_s st) key = Some t"
    and ms: "map_of (mode_t t) mode = Some ms"
    and tr: "traverseAndResolve throws mode (source_filename_t t) (value_m ms)
               (getObjMember (Some (source_node_t t)) ''$value'')
               (if truthy (type_t t) then Some [type_t t] else None)
               [jsonID_t t, ''$value''] st = Some (finalValue, None, st1)"
  shows "\<exists>st2. resolve_mode throws key mode st = Some (None, st2)
           \<and> mode_value (tokens_s st2) key mode =
               Some (if truthy finalValue then finalValue else value_m ms)
           \<and> map_option value_t (map_of (tokens_s st2) key) =
               (if mode = ''.'' then mode_value (tokens_s st2) key mode else Some (value_t t))"
proof -
  have same: "tokens_s st1 = tokens_s st"
    by (rule traverse_tokens(1)[rule_format, OF tr])
  have mv: "mode_value (tokens_s st) key mode = Some (value_m ms)"
    using t ms by (simp add: mode_value_def)
  define toks1 where "toks1 = (if truthy finalValue
                then set_mode_value key mode finalValue (tokens_s st1)
                else tokens_s st1)"
  define toks2 where "toks2 = (if mode = ''.'' then promote_value key mode toks1 else toks1)"
  define r where "r = (if truthy finalValue then finalValue else value_m ms)"
  have res: "resolve_mode throws key mode st = Some (None, st1\<lparr>tokens_s := toks2\<rparr>)"
    using t ms tr by (simp add: resolve_mode_def Let_def toks1_def toks2_def)
  have v1: "mode_value toks1 key mode = Some r"
    using mv same by (simp add: mode_value_set toks1_def r_def)
  have v2: "mode_value toks2 key mode = Some r"
    using v1 by (cases "mode = ''.''") (simp_all add: mode_value_promote toks2_def)
  have "map_option value_t (map_of toks1 key) = map_option value_t (map_of (tokens_s st1) key)"
    by (cases "truthy finalValue") (simp_all only: toks1_def if_True if_False root_value_set)
  also have "\<dots> = Some (value_t t)" using t same by simp
  finally have r1: "map_option value_t (map_of toks1 key) = Some (value_t t)" .
  have r2: "map_option value_t (map_of toks2 key) =
              (if mode = ''.'' then mode_value toks2 key mode else Some (value_t t))"
  proof (cases "mode = ''.''")
    case True
    then have "toks2 = promote_value key mode toks1" by (simp add: toks2_def)
    then show ?thesis using True v1 v2 by (simp add: root_value_promote)
  next
    case False
    then have "toks2 = toks1" by (simp add: toks2_def)
    then show ?thesis using False r1 by simp
  qed
  show ?thesis using res v2 r2 by (simp add: r_def)
qed

lemma ex_falsy_ref: "map_of ex_falsy ''#/ref'' =
  Some (ex_token [''ref''] (JStr ''boolean'') (JStr ''{flag}'') [(''dark'', JStr ''{flag}'')])"
  by (simp add: ex_falsy_def)

lemma ex_falsy_traverse:
  "traverseAndResolve True ''.'' (Some ''tokens.json'') (JStr ''{flag}'') (Some (JStr ''{flag}''))
     (Some [JStr ''boolean'']) [''#/ref'', ''$value'']
     \<lparr>tokens_s = ex_falsy, modeRefMap_s = [(''.'', Some []), (''dark'', Some [])], diag_s = []\<rparr> =
   Some (JBool True, None,
         \<lparr>tokens_s = ex_falsy,
          modeRefMap_s = [(''.'', Some [(''#/ref/$value'',
                            \<lparr>filename_r = Some ''tokens.json'', refChain_r = [''#/flag/$value'']\<rparr>)]),
                          (''dark'', Some [])],
          diag_s = []\<rparr>)"
  by code_simp

text \<open>
  In \<open>{"flag": {"$value": true, ...}, "ref": {"$value": "{flag}", ...}}\<close> the value of
  \<open>ref\<close> in mode \<open>.\<close> resolves to \<open>true\<close>, which is assigned to the mode and then to
  the token.
\<close>

theorem resolve_mode_assigns_witness:
  "\<exists>st2. resolve_mode True ''#/ref'' ''.''
           \<lparr>tokens_s = ex_falsy, modeRefMap_s = [(''.'', Some []), (''dark'', Some [])],
            diag_s = []\<rparr> = Some (None, st2)
        \<and> mode_value (tokens_s st2) ''#/ref'' ''.'' = Some (JBool True)
        \<and> map_option value_t (map_of (tokens_s st2) ''#/ref'') = Some (JBool True)"
proof -
  let ?t = "ex_token [''ref''] (JStr ''boolean'') (JStr ''{flag}'') [(''dark'', JStr ''{flag}'')]"
  let ?st = "\<lparr>tokens_s = ex_falsy, modeRefMap_s = [(''.'', Some []), (''dark'', Some [])],
              diag_s = []\<rparr>"
  have t: "map_of (tokens_s ?st) ''#/ref'' = Some ?t" by (simp add: ex_falsy_ref)
  have ms: "map_of (mode_t ?t) ''.'' = Some (ex_mode (JStr ''{flag}'') (Some (JStr ''{flag}'')))"
    by (simp add: ex_token_def)
  have tr: "traverseAndResolve True ''.'' (source_filename_t ?t)
              (value_m (ex_mode (JStr ''{flag}'') (Some (JStr ''{flag}''))))
              (getObjMember (Some (source_node_t ?t)) ''$value'')
              (if truthy (type_t ?t) then Some [type_t ?t] else None)
              [jsonID_t ?t, ''$value''] ?st =
            Some (JBool True, None,
              \<lparr>tokens_s = ex_falsy,
               modeRefMap_s = [(''.'', Some [(''#/ref/$value'',
                            \<lparr>filename_r = Some ''tokens.json'', refChain_r = [''#/flag/$value'']\<rparr>)]),
                          (''dark'', Some [])],
               diag_s = []\<rparr>)"
    using ex_falsy_traverse
    by (simp add: ex_token_def ex_mode_def new_mode_def path_jsonID_def)
  from resolve_mode_assigns[OF t ms tr] obtain st2 where
    "resolve_mode True ''#/ref'' ''.'' ?st = Some (None, st2)"
    "mode_value (tokens_s st2) ''#/ref'' ''.'' = Some (JBool True)"
    "map_option value_t (map_of (tokens_s st2) ''#/ref'') = mode_value (tokens_s st2) ''#/ref'' ''.''"
    by (auto simp: ex_mode_def new_mode_def)
  then show ?thesis by (intro exI[of _ st2]) simp
qed

subsection \<open>Cycles\<close>

lemma ex_cycle_endless: "endless ex_cycle ''.'' {''{a}'', ''{b}''}"
proof -
  have "alias_step ex_cycle ''.'' ''{a}'' = Some ''{b}''" by code_simp
  moreover have "alias_step ex_cycle ''.'' ''{b}'' = Some ''{a}''" by code_simp
  ultimately show ?thesis by (simp add: endless_def)
qed

text \<open>
  Claim C1, as amended. The logger raises on \<open>error\<close>. At a site whose alias lies in
  an endless set of aliases, so that its chain runs into a cycle, the traversal
  reports \<open>Circular alias detected.\<close> once and ends with the exception of the logger,
  the value of the site, the token set and the map as they were; and \<open>resolveAliases\<close>
  returns on every token set and every map.
\<close>

theorem traverseAndResolve_cycle_throwing:
  assumes e: "endless (tokens_s st) mode S" and s: "s \<in> S"
  shows "traverseAndResolve True mode filename (JStr s) nd expectedTypes path st =
           Some (JStr s, Some (LoggerError CircularAlias),
                 st\<lparr>diag_s := diag_s st @ [CircularAlias]\<rparr>)
         \<and> (\<exists>res. resolveAliases True (tokens_s st) modeRefMap = Some res)"
proof -
  from e s obtain b where "alias_step (tokens_s st) mode s = Some b"
    unfolding endless_def by blast
  then obtain r where "aliasToRef s = Some r" by (rule alias_stepD)
  then have a: "isAlias s" by (rule aliasToRef_isAlias)
  from resolveInner_cycle_throwing[OF e s, of "[]" "diag_s st"] obtain extra where
    "resolveInner True (tokens_s st) mode s [] (diag_s st) =
       Some (Inl (LoggerError CircularAlias), extra, diag_s st @ [CircularAlias])"
    by auto
  then have "resolve_site True mode filename s expectedTypes path st =
               Some (JStr s, Some (LoggerError CircularAlias),
                     st\<lparr>diag_s := diag_s st @ [CircularAlias]\<rparr>)"
    by (simp add: resolve_site_def)
  then show ?thesis using a resolveAliases_total by simp
qed

text \<open>
  In \<open>{"a": {"$value": "{b}"}, "b": {"$value": "{a}"}}\<close> the site \<open>a.$value\<close> is on a cycle:
  with a logger that raises, its resolution ends with one diagnostic.
\<close>

theorem traverseAndResolve_cycle_throwing_witness:
  "traverseAndResolve True ''.'' (Some ''tokens.json'') (JStr ''{b}'') (Some (JStr ''{b}'')) None
     [''#/a'', ''$value'']
     \<lparr>tokens_s = ex_cycle, modeRefMap_s = [(''.'', Some [])], diag_s = []\<rparr> =
   Some (JStr ''{b}'', Some (LoggerError CircularAlias),
         \<lparr>tokens_s = ex_cycle, modeRefMap_s = [(''.'', Some [])], diag_s = [CircularAlias]\<rparr>)
   \<and> (\<exists>res. resolveAliases True ex_cycle [(''.'', Some [])] = Some res)"
  using traverseAndResolve_cycle_throwing
          [where st = "\<lparr>tokens_s = ex_cycle, modeRefMap_s = [(''.'', Some [])], diag_s = []\<rparr>"
             and mode = "''.''" and S = "{''{a}'', ''{b}''}" and s = "''{b}''"
             and filename = "Some ''tokens.json''" and nd = "Some (JStr ''{b}'')"
             and expectedTypes = None and path = "[''#/a'', ''$value'']"
             and modeRefMap = "[(''.'', Some [])]"]
        ex_cycle_endless
  by simp

lemma resolveAliases_cycle_example:
  "resolveAliases True ex_cycle [(''.'', Some [])] =
   Some (Some (LoggerError CircularAlias),
         \<lparr>tokens_s = ex_cycle, modeRefMap_s = [(''.'', Some [])], diag_s = [CircularAlias]\<rparr>)"
  by code_simp

lemma ex_cycle_a: "map_of ex_cycle ''#/a'' = Some (ex_token [''a''] JUndefined (JStr ''{b}'') [])"
  by (simp add: ex_cycle_def)

lemma ex_cycle_keys: "own_keys ex_cycle = [''#/a'', ''#/b'']"
  by code_simp

lemma ex_cycle_a_modes:
  "own_keys (mode_t (ex_token [''a''] JUndefined (JStr ''{b}'') [])) = [''.'']"
  by code_simp

lemma ex_cycle_returning_mode:
  "resolve_mode False ''#/a'' ''.''
     \<lparr>tokens_s = ex_cycle, modeRefMap_s = [(''.'', Some [])], diag_s = []\<rparr> = None"
proof -
  have a: "isAlias ''{b}''" by code_simp
  have "resolveInner False ex_cycle ''.'' ''{b}'' [] [] = None"
    by (rule resolveInner_cycle_returning[OF ex_cycle_endless]) simp
  then have "resolve_site False ''.'' (Some ''tokens.json'') ''{b}'' None [''#/a'', ''$value'']
          \<lparr>tokens_s = ex_cycle, modeRefMap_s = [(''.'', Some [])], diag_s = []\<rparr> = None"
    by (simp add: resolve_site_def)
  then show ?thesis
    using a
    by (simp add: resolve_mode_def ex_cycle_a ex_token_def ex_mode_def new_mode_def
          path_jsonID_def)
qed

text \<open>
  Claim C1 as stated fails on \<open>{"a": {"$value": "{b}"}, "b": {"$value": "{a}"}}\<close> with a
  logger whose \<open>error\<close> returns: \<open>resolveAliases\<close> never returns.
\<close>

theorem resolveAliases_cycle_counterexample:
  "resolveAliases False ex_cycle [(''.'', Some [])] = None"
  using ex_cycle_returning_mode
  by (simp add: resolveAliases_def ex_cycle_keys ex_cycle_a ex_cycle_a_modes)

subsection \<open>Missing targets\<close>

text \<open>
  Claim C2, as amended. The target token of the alias \<open>s\<close> is absent from the token
  set. Then the traversal of a site that holds \<open>s\<close> reports \<open>Could not resolve alias
  s.\<close> and ends with an exception: the one of the logger when the logger raises, a
  \<open>TypeError\<close> when it returns. The value of the site, the token set and the map are
  as they were, so nothing is recorded for the site. When the site is the whole value
  of the first mode of a token, the loop over the tokens ends at that token with the
  same exception, and the modes and tokens after it are not resolved.
\<close>

theorem resolveAliases_missing_target:
  assumes r: "aliasToRef s = Some r"
    and missing: "map_of (tokens_s st) (strip_value_suffix r) = None"
  shows "traverseAndResolve throws mode filename (JStr s) nd expectedTypes path st =
           Some (JStr s,
                 Some (if throws then LoggerError (CouldNotResolve s) else TypeError),
                 st\<lparr>diag_s := diag_s st @ [CouldNotResolve s]\<rparr>)
       \<and> (map_of (tokens_s st) key = Some t \<and> own_keys (mode_t t) = mode # modes
            \<and> map_of (mode_t t) mode = Some ms \<and> value_m ms = JStr s
          \<longrightarrow> resolve_tokens throws (key # rest) st =
                Some (Some (if throws then LoggerError (CouldNotResolve s) else TypeError),
                      st\<lparr>diag_s := diag_s st @ [CouldNotResolve s]\<rparr>))"
proof -
  have a: "isAlias s" using r by (rule aliasToRef_isAlias)
  have site: "resolve_site throws mode filename s expectedTypes path st =
           Some (JStr s,
                 Some (if throws then LoggerError (CouldNotResolve s) else TypeError),
                 st\<lparr>diag_s := diag_s st @ [CouldNotResolve s]\<rparr>)"
    for filename expectedTypes path
    using resolveInner_missing[OF r missing, of "[]" throws mode "diag_s st"]
    by (simp add: resolve_site_def)
  have tr: "traverseAndResolve throws mode filename (JStr s) nd expectedTypes path st =
           Some (JStr s,
                 Some (if throws then LoggerError (CouldNotResolve s) else TypeError),
                 st\<lparr>diag_s := diag_s st @ [CouldNotResolve s]\<rparr>)"
    for filename nd expectedTypes path
    using a site by simp
  have loop: "resolve_tokens throws (key # rest) st =
                Some (Some (if throws then LoggerError (CouldNotResolve s) else TypeError),
                      st\<lparr>diag_s := diag_s st @ [CouldNotResolve s]\<rparr>)"
    if t: "map_of (tokens_s st) key = Some t" and k: "own_keys (mode_t t) = mode # modes"
      and ms: "map_of (mode_t t) mode = Some ms" and v: "value_m ms = JStr s"
  proof -
    have "resolve_mode throws key mode st =
            Some (Some (if throws then LoggerError (CouldNotResolve s) else TypeError),
                  st\<lparr>diag_s := diag_s st @ [CouldNotResolve s]\<rparr>)"
      using t ms v tr by (simp add: resolve_mode_def)
    then show ?thesis using t k by simp
  qed
  show ?thesis using tr loop by blast
qed

lemma ex_missing_a:
  "map_of ex_missing ''#/a'' = Some (ex_token [''a''] JUndefined (JStr ''{missing}'') [])"
  by (simp add: ex_missing_def)

text \<open>
  In \<open>{"a": {"$value": "{missing}"}, "b": {"$value": "{c}"}, "c": {"$value": "#fff"}}\<close>
  the target of \<open>a\<close> is absent: with a logger that raises, the loop over the tokens ends
  at \<open>a\<close> with the logger's exception.
\<close>

theorem resolveAliases_missing_target_witness:
  "traverseAndResolve True ''.'' (Some ''tokens.json'') (JStr ''{missing}'')
     (Some (JStr ''{missing}'')) None [''#/a'', ''$value'']
     \<lparr>tokens_s = ex_missing, modeRefMap_s = [(''.'', Some [])], diag_s = []\<rparr> =
   Some (JStr ''{missing}'', Some (LoggerError (CouldNotResolve ''{missing}'')),
         \<lparr>tokens_s = ex_missing, modeRefMap_s = [(''.'', Some [])],
          diag_s = [CouldNotResolve ''{missing}'']\<rparr>)
   \<and> resolve_tokens True [''#/a'', ''#/b'', ''#/c'']
       \<lparr>tokens_s = ex_missing, modeRefMap_s = [(''.'', Some [])], diag_s = []\<rparr> =
     Some (Some (LoggerError (CouldNotResolve ''{missing}'')),
           \<lparr>tokens_s = ex_missing, modeRefMap_s = [(''.'', Some [])],
            diag_s = [CouldNotResolve ''{missing}'']\<rparr>)"
proof -
  let ?st = "\<lparr>tokens_s = ex_missing, modeRefMap_s = [(''.'', Some [])], diag_s = []\<rparr>"
  let ?t = "ex_token [''a''] JUndefined (JStr ''{missing}'') []"
  have r: "aliasToRef ''{missing}'' = Some ''#/missing/$value''" by code_simp
  have s: "strip_value_suffix ''#/missing/$value'' = ''#/missing''" by code_simp
  have m: "map_of (tokens_s ?st) (strip_value_suffix ''#/missing/$value'') = None"
    unfolding s by (simp add: ex_missing_def)
  have t: "map_of (tokens_s ?st) ''#/a'' = Some ?t" by (simp add: ex_missing_a)
  have k: "own_keys (mode_t ?t) = [''.'']" by code_simp
  have ms: "map_of (mode_t ?t) ''.'' = Some (ex_mode (JStr ''{missing}'') (Some (JStr ''{missing}'')))"
    by (simp add: ex_token_def)
  have v: "value_m (ex_mode (JStr ''{missing}'') (Some (JStr ''{missing}''))) = JStr ''{missing}''"
    by (simp add: ex_mode_def new_mode_def)
  show ?thesis
    using resolveAliases_missing_target
            [OF r m, where throws = True and mode = "''.''" and filename = "Some ''tokens.json''"
               and nd = "Some (JStr ''{missing}'')" and expectedTypes = None
               and path = "[''#/a'', ''$value'']" and key = "''#/a''" and t = ?t
               and modes = "[]" and rest = "[''#/b'', ''#/c'']"
               and ms = "ex_mode (JStr ''{missing}'') (Some (JStr ''{missing}''))"]
          t k ms v
    by simp
qed

text \<open>
  Claim C2 as stated fails on that document with either logger: \<open>resolveAliases\<close> ends
  with an exception, the logger's or a \<open>TypeError\<close>, and \<open>b\<close>, whose target exists,
  still holds its alias.
\<close>

theorem resolveAliases_missing_counterexample:
  "resolveAliases True ex_missing [(''.'', Some [])] =
     Some (Some (LoggerError (CouldNotResolve ''{missing}'')),
           \<lparr>tokens_s = ex_missing, modeRefMap_s = [(''.'', Some [])],
            diag_s = [CouldNotResolve ''{missing}'']\<rparr>)
   \<and> resolveAliases False ex_missing [(''.'', Some [])] =
     Some (Some TypeError,
           \<lparr>tokens_s = ex_missing, modeRefMap_s = [(''.'', Some [])],
            diag_s = [CouldNotResolve ''{missing}'']\<rparr>)
   \<and> mode_value ex_missing ''#/b'' ''.'' = Some (JStr ''{c}'')"
  by code_simp

subsection \<open>Type mismatch\<close>

lemma resolveInner_returns_alias:
  assumes "resolveInner throws toks mode s refChain diag = Some (Inr resolvedID, chain, diag')"
  shows "isAlias s"
proof (cases "aliasToRef s")
  case None
  then have "\<exists>e c d. resolveInner throws toks mode s refChain diag = Some (Inl e, c, d)"
    by (subst resolveInner.simps) (simp add: Let_def)
  with assms show ?thesis by simp
next
  case (Some r)
  then show ?thesis by (rule aliasToRef_isAlias)
qed

lemma resolve_site_type_mismatch:
  assumes ri: "resolveInner throws (tokens_s st) mode s [] (diag_s st)
                 = Some (Inr resolvedID, refChain, diag)"
    and tg: "map_of (tokens_s st) resolvedID = Some target"
    and ets: "expectedTypes = Some (e # es)"
    and mis: "type_t target \<notin> set (e # es)"
  shows "resolve_site throws mode filename s expectedTypes path st =
     (if throws
      then Some (JStr s, Some (LoggerError (CannotAlias (type_t target) (e # es))),
                 st\<lparr>diag_s := diag @ [CannotAlias (type_t target) (e # es)]\<rparr>)
      else (case map_of (modeRefMap_s st) mode of
              Some (Some refMap) \<Rightarrow>
                Some (or_else (case map_of (mode_t target) mode of
                                 None \<Rightarrow> JUndefined
                               | Some ms \<Rightarrow> value_m ms)
                              (value_t target),
                      None,
                      st\<lparr>diag_s := diag @ [CannotAlias (type_t target) (e # es)],
                         modeRefMap_s :=
                           set_own mode
                             (Some (set_own (join ''/'' path)
                                      \<lparr>filename_r = filename, refChain_r = refChain\<rparr> refMap))
                             (modeRefMap_s st)\<rparr>)
            | _ \<Rightarrow>
                Some (JStr s, Some TypeError,
                      st\<lparr>diag_s := diag @ [CannotAlias (type_t target) (e # es)]\<rparr>)))"
proof (cases throws)
  case True
  then show ?thesis
    using ri tg ets mis
    by (simp add: resolve_site_def check_type_def logger_error_def)
next
  case False
  have c: "check_type throws expectedTypes (Some target) (st\<lparr>diag_s := diag\<rparr>) =
      (None, st\<lparr>diag_s := diag @ [CannotAlias (type_t target) (e # es)]\<rparr>)"
    using False ets mis by (simp add: check_type_def logger_error_def)
  show ?thesis
  proof (cases "map_of (modeRefMap_s st) mode")
    case None
    then show ?thesis using False ri tg c
      by (simp add: resolve_site_def record_ref_def)
  next
    case (Some m)
    then show ?thesis using False ri tg c
      by (cases m) (simp_all add: resolve_site_def record_ref_def resolved_value_def)
  qed
qed

text \<open>
  Claim C5, as amended. \<open>resolveInner\<close> has returned the terminal token of the alias
  at a site, the expected types of the site are not empty, the \<open>$type\<close> of the terminal
  token is not among them, and the map has an entry for the mode. Then the traversal
  of the site reports \<open>Cannot alias to $type ... from $type ...\<close>. When the logger
  raises, the traversal ends with that exception, the value of the site unchanged and
  the chain not recorded. When the logger returns, the chain is recorded in the map
  at the joined path and the site takes the value of the terminal token, as it does
  when the types match.
\<close>

theorem traverseAndResolve_type_mismatch:
  assumes ri: "resolveInner throws (tokens_s st) mode s [] (diag_s st)
                 = Some (Inr resolvedID, refChain, diag)"
    and tg: "map_of (tokens_s st) resolvedID = Some target"
    and ets: "expectedTypes = Some (e # es)"
    and mis: "type_t target \<notin> set (e # es)"
    and mrm: "map_of (modeRefMap_s st) mode = Some (Some refMap)"
  shows "traverseAndResolve throws mode filename (JStr s) nd expectedTypes path st =
     (if throws
      then Some (JStr s, Some (LoggerError (CannotAlias (type_t target) (e # es))),
                 st\<lparr>diag_s := diag @ [CannotAlias (type_t target) (e # es)]\<rparr>)
      else Some (or_else (case map_of (mode_t target) mode of
                            None \<Rightarrow> JUndefined
                          | Some ms \<Rightarrow> value_m ms)
                         (value_t target),
                 None,
                 st\<lparr>diag_s := diag @ [CannotAlias (type_t target) (e # es)],
                    modeRefMap_s :=
                      set_own mode
                        (Some (set_own (join ''/'' path)
                                 \<lparr>filename_r = filename, refChain_r = refChain\<rparr> refMap))
                        (modeRefMap_s st)\<rparr>))"
proof -
  have a: "isAlias s" using ri by (rule resolveInner_returns_alias)
  show ?thesis
    using a resolve_site_type_mismatch[OF ri tg ets mis, of filename path] mrm
    by simp
qed

lemma ex_mismatch_resolveInner:
  "resolveInner False ex_mismatch ''.'' ''{x}'' [] [] = Some (Inr ''#/x'', [''#/x/$value''], [])"
  by code_simp

lemma ex_mismatch_x:
  "map_of ex_mismatch ''#/x'' = Some (ex_token [''x''] (JStr ''dimension'') (JStr ''5px'') [])"
  by (simp add: ex_mismatch_def)

text \<open>
  In \<open>{"x": {"$value": "5px", "$type": "dimension"}, "y": {"$value": "{x}", "$type":
  "color"}}\<close> the site \<open>y.$value\<close> expects a \<open>color\<close>: with a logger that returns, the
  chain is recorded and the site takes the value of \<open>x\<close>.
\<close>

theorem traverseAndResolve_type_mismatch_witness:
  "traverseAndResolve False ''.'' (Some ''tokens.json'') (JStr ''{x}'') (Some (JStr ''{x}''))
     (Some [JStr ''color'']) [''#/y'', ''$value'']
     \<lparr>tokens_s = ex_mismatch, modeRefMap_s = [(''.'', Some [])], diag_s = []\<rparr> =
   Some (JStr ''5px'', None,
         \<lparr>tokens_s = ex_mismatch,
          modeRefMap_s = [(''.'', Some [(''#/y/$value'',
                            \<lparr>filename_r = Some ''tokens.json'', refChain_r = [''#/x/$value'']\<rparr>)])],
          diag_s = [CannotAlias (JStr ''dimension'') [JStr ''color'']]\<rparr>)"
proof -
  let ?st = "\<lparr>tokens_s = ex_mismatch, modeRefMap_s = [(''.'', Some [])], diag_s = []\<rparr>"
  let ?x = "ex_token [''x''] (JStr ''dimension'') (JStr ''5px'') []"
  have ri: "resolveInner False (tokens_s ?st) ''.'' ''{x}'' [] (diag_s ?st) =
              Some (Inr ''#/x'', [''#/x/$value''], [])"
    by (simp add: ex_mismatch_resolveInner)
  have tg: "map_of (tokens_s ?st) ''#/x'' = Some ?x" by (simp add: ex_mismatch_x)
  have ets: "Some [JStr ''color''] = Some (JStr ''color'' # [])" by simp
  have mis: "type_t ?x \<notin> set (JStr ''color'' # [])" by (simp add: ex_token_def)
  have mrm: "map_of (modeRefMap_s ?st) ''.'' = Some (Some [])" by simp
  have j: "join ''/'' [''#/y'', ''$value''] = ''#/y/$value''" by code_simp
  show ?thesis
    using traverseAndResolve_type_mismatch
            [OF ri tg ets mis mrm, of "Some ''tokens.json''" "Some (JStr ''{x}'')"
               "[''#/y'', ''$value'']"]
    by (simp add: j ex_token_def ex_mode_def new_mode_def or_else_def)
qed

text \<open>
  Claim C5 as stated fails on that document with either logger. When the logger raises,
  the chain of \<open>y.$value\<close> is not recorded in the map; when it returns, the chain is
  recorded and the value of \<open>y\<close> is replaced with the one of \<open>x\<close>.
\<close>

theorem resolveAliases_mismatch_counterexample:
  "resolveAliases True ex_mismatch [(''.'', Some [])] =
     Some (Some (LoggerError (CannotAlias (JStr ''dimension'') [JStr ''color''])),
           \<lparr>tokens_s = ex_mismatch, modeRefMap_s = [(''.'', Some [])],
            diag_s = [CannotAlias (JStr ''dimension'') [JStr ''color'']]\<rparr>)
   \<and> resolveAliases False ex_mismatch [(''.'', Some [])] =
     Some (None,
           \<lparr>tokens_s = promote_value ''#/y'' ''.''
                          (set_mode_value ''#/y'' ''.'' (JStr ''5px'') ex_mismatch),
            modeRefMap_s = [(''.'', Some [(''#/y/$value'',
                              \<lparr>filename_r = Some ''tokens.json'',
                               refChain_r = [''#/x/$value'']\<rparr>)])],
            diag_s = [CannotAlias (JStr ''dimension'') [JStr ''color'']]\<rparr>)
   \<and> mode_value ex_mismatch ''#/y'' ''.'' = Some (JStr ''{x}'')
   \<and> mode_value (promote_value ''#/y'' ''.''
                    (set_mode_value ''#/y'' ''.'' (JStr ''5px'') ex_mismatch)) ''#/y'' ''.'' =
       Some (JStr ''5px'')"
  by code_simp

subsection \<open>Falsy values\<close>

text \<open>
  Claim C6 fails on \<open>{"flag": {"$value": true, "$type": "boolean", "$extensions":
  {"mode": {"dark": false}}}, "ref": {"$value": "{flag}", "$type": "boolean",
  "$extensions": {"mode": {"dark": "{flag}"}}}}\<close>. In mode \<open>dark\<close> the terminal token
  \<open>flag\<close> has the value \<open>false\<close>; the traversal of \<open>ref\<close> returns \<open>true\<close>, the
  \<open>$value\<close> of \<open>flag\<close> itself, because \<open>mode[mode]?.$value || $value\<close> passes over a
  falsy value. After \<open>resolveAliases\<close> the value of \<open>ref\<close> in mode \<open>dark\<close> is \<open>true\<close>
  and the one of \<open>flag\<close> is \<open>false\<close>.
\<close>

theorem resolveAliases_falsy_mode_value:
  "(case resolveAliases True ex_falsy [(''.'', Some []), (''dark'', Some [])] of
      Some (None, st) \<Rightarrow>
        Some (mode_value (tokens_s st) ''#/flag'' ''dark'',
              mode_value (tokens_s st) ''#/ref'' ''dark'')
    | _ \<Rightarrow> None) = Some (Some (JBool False), Some (JBool True))
   \<and> traverseAndResolve True ''dark'' (Some ''tokens.json'') (JStr ''{flag}'')
       (Some (JStr ''{flag}'')) (Some [JStr ''boolean'']) [''#/ref'', ''$value'']
       \<lparr>tokens_s = ex_falsy, modeRefMap_s = [(''.'', Some []), (''dark'', Some [])],
        diag_s = []\<rparr> =
     Some (JBool True, None,
           \<lparr>tokens_s = ex_falsy,
            modeRefMap_s = [(''.'', Some []),
                            (''dark'', Some [(''#/ref/$value'',
                               \<lparr>filename_r = Some ''tokens.json'',
                                refChain_r = [''#/flag/$value'']\<rparr>)])],
            diag_s = []\<rparr>)
   \<and> mode_value ex_falsy ''#/flag'' ''dark'' = Some (JBool False)"
  by code_simp

section \<open>Properties of the linker\<close>

text \<open>
  Claim C3 fails on \<open>{"a": {"$value": "#111", "$extensions": {"mode": {"dark":
  "{b}"}}}, "b": {"$value": "#fff", "$extensions": {"mode": {"dark": "#000"}}}}\<close>,
  where \<open>a\<close> is an alias in mode \<open>dark\<close> only. After \<open>resolveAliases\<close> the map holds one
  entry, in mode \<open>dark\<close>; \<open>graphAliases\<close> writes \<open>aliasOf\<close>, \<open>aliasChain\<close> and
  \<open>dependencies\<close> of that entry into the token \<open>a\<close> itself, whose alias fields were
  all \<open>undefined\<close>, and leaves the fields of its modes \<open>.\<close> and \<open>dark\<close> \<open>undefined\<close>.
  On \<open>{"a": {"$value": "{b}", ...}, "b": ...}\<close>, where \<open>a\<close> is an alias in mode \<open>.\<close>
  too, the promotion reads \<open>tokens[jsonID]\<close> at the key of the entry, \<open>#/a/$value\<close>,
  which is no token: \<open>graphAliases\<close> ends with a \<open>TypeError\<close>, the fields of the token
  written and those of its mode \<open>.\<close> \<open>undefined\<close>. The comparison of \<open>localeCompare\<close> is
  taken as the order of the strings and \<open>String(Number(key)) === key\<close> as the test for
  an array index; neither decides here.
\<close>

theorem graphAliases_root_fields:
  "(case resolveAliases True ex_dark_alias [(''.'', Some []), (''dark'', Some [])] of
      Some (None, st) \<Rightarrow>
        (case graphAliases (\<lambda>a b. a \<le> b) True is_index (modeRefMap_s st) (tokens_s st) of
           (e, st') \<Rightarrow>
             Some (e, modeRefMap_s st, root_fields (tokens_s st) ''#/a'',
                   root_fields (tokens_s st') ''#/a'',
                   mode_fields (tokens_s st') ''#/a'' ''.'',
                   mode_fields (tokens_s st') ''#/a'' ''dark''))
    | _ \<Rightarrow> None) =
   Some (None,
         [(''.'', Some []),
          (''dark'', Some [(''#/a/$value'',
             \<lparr>filename_r = Some ''tokens.json'', refChain_r = [''#/b/$value'']\<rparr>)])],
         Some (None, None, None, None, PUndefined),
         Some (Some ''b'', Some [Some ''b''], None, Some [''#/b/$value''], PUndefined),
         Some (None, None, None, None, PUndefined),
         Some (None, None, None, None, PUndefined))
   \<and> (case resolveAliases True ex_modes [(''.'', Some []), (''dark'', Some [])] of
      Some (None, st) \<Rightarrow>
        (case graphAliases (\<lambda>a b. a \<le> b) True is_index (modeRefMap_s st) (tokens_s st) of
           (e, st') \<Rightarrow>
             Some (e, root_fields (tokens_s st') ''#/a'',
                   mode_fields (tokens_s st') ''#/a'' ''.''))
    | _ \<Rightarrow> None) =
   Some (Some TypeError,
         Some (Some ''b'', Some [Some ''b''], None, Some [''#/b/$value''], PUndefined),
         Some (None, None, None, None, PUndefined))"
  by code_simp

text \<open>
  Claim C8 fails on its own document, \<open>{"color": {"red": {"$value": "#ff0000", "$type":
  "color"}}, "shadow1": {"$value": {"color": "{color.red}", "offsetX": "2px", "offsetY":
  "2px", "blur": "4px", "spread": "0", "inset": false}, "$type": "shadow"}}\<close>. After
  \<open>resolveAliases\<close> the map holds the entry \<open>#/shadow1/$value/color\<close>. \<open>graphAliases\<close>
  creates \<open>mode['.'].partialAliasOf = {}\<close> and then walks
  \<open>tokens[rootRef].partialAliasOf\<close>, the field of the token itself, which is
  \<open>undefined\<close>; \<open>sourceNode\<close>, the member \<open>$value\<close> of a node that is the \<open>$value\<close>
  already, is \<open>undefined\<close> too, and \<open>sourceNode.type\<close> raises a \<open>TypeError\<close>. The
  \<open>partialAliasOf\<close> of \<open>shadow1\<close> is still \<open>undefined\<close>, the one of its mode \<open>.\<close> is
  empty.
\<close>

theorem graphAliases_shadow_partial:
  "(case resolveAliases True ex_shadow [(''.'', Some [])] of
      Some (None, st) \<Rightarrow>
        (case graphAliases (\<lambda>a b. a \<le> b) True is_index (modeRefMap_s st) (tokens_s st) of
           (e, st') \<Rightarrow>
             Some (e, modeRefMap_s st,
                   map_option partialAliasOf_t (map_of (tokens_s st') ''#/shadow1''),
                   map_option (\<lambda>t. map_option partialAliasOf_m (map_of (mode_t t) ''.''))
                     (map_of (tokens_s st') ''#/shadow1'')))
    | _ \<Rightarrow> None) =
   Some (Some TypeError,
         [(''.'', Some [(''#/shadow1/$value/color'',
             \<lparr>filename_r = Some ''tokens.json'', refChain_r = [''#/color/red/$value'']\<rparr>)])],
         Some PUndefined,
         Some (Some (PObj [])))"
  by code_simp

end
